theory Spec2Isabelle
  imports Main "HOL-Library.Word"
begin

unbundle bit_operations_syntax

section \<open>Common types\<close>

type_synonym byte = "8 word"

section \<open>BochanAudioPlayer: the playback queue\<close>

text \<open>
  Modelled from the spec: \<^verbatim>\<open>BochanAudioPlayer.cpp\<close> is missing. The header
  \<^verbatim>\<open>BochanAudioPlayer.h\<close> declares \<^verbatim>\<open>initialize\<close>, \<^verbatim>\<open>queueData\<close>, \<^verbatim>\<open>flush\<close> and the static
  callback \<^verbatim>\<open>fillData\<close> together with the members \<^verbatim>\<open>initialized\<close>, \<^verbatim>\<open>playing\<close>,
  \<^verbatim>\<open>sampleBuffer\<close> and \<^verbatim>\<open>sampleBufferPos\<close>; the operations below follow the written
  specification of the player (sections 3 and 4.2). The record keeps the header's member
  names and adds the capacity range \<open>minBufferSize\<close>, \<open>maxBufferSize\<close> of the
  specification's queue state. The stored bytes are a list, so the "stored length" of the
  specification is the length of \<open>sampleBuffer\<close>; the size of the allocation behind it is
  not modelled, since it never changes a byte that is delivered. The mutex is not modelled
  either: every operation is one atomic step.
\<close>

record BochanAudioPlayer =
  initialized :: bool
  playing :: bool
  sampleBuffer :: "byte list"
  sampleBufferPos :: nat
  minBufferSize :: nat
  maxBufferSize :: nat

definition uninitializedPlayer :: BochanAudioPlayer where
  "uninitializedPlayer =
     \<lparr>initialized = False, playing = False, sampleBuffer = [], sampleBufferPos = 0,
      minBufferSize = 0, maxBufferSize = 0\<rparr>"

text \<open>
  Modelled from the spec: the unread bytes, those from the read cursor on, which no callback
  has consumed yet.
\<close>

definition unread :: "BochanAudioPlayer \<Rightarrow> byte list" where
  "unread p = drop (sampleBufferPos p) (sampleBuffer p)"

text \<open>
  Modelled from the spec: the invariant of the playback queue state,
  "0 \<le> pos \<le> stored length".
\<close>

definition playerInvariant :: "BochanAudioPlayer \<Rightarrow> bool" where
  "playerInvariant p \<longleftrightarrow> sampleBufferPos p \<le> length (sampleBuffer p)"

text \<open>
  Modelled from the spec: the body of \<^verbatim>\<open>BochanAudioPlayer::initialize\<close> is missing. It
  "requires minBufferSize \<le> maxBufferSize" and "fails and leaves state Uninitialized if the
  output device cannot be opened"; whether the device opens is the parameter \<open>deviceOpens\<close>.
\<close>

definition initialize_player ::
  "bool \<Rightarrow> int \<Rightarrow> nat \<Rightarrow> nat \<Rightarrow> bool \<times> BochanAudioPlayer" where
  "initialize_player deviceOpens sampleRate minSize maxSize =
     (if minSize \<le> maxSize \<and> deviceOpens
      then (True, \<lparr>initialized = True, playing = False, sampleBuffer = [],
                   sampleBufferPos = 0, minBufferSize = minSize, maxBufferSize = maxSize\<rparr>)
      else (False, uninitializedPlayer))"

text \<open>
  Modelled from the spec: the body of \<^verbatim>\<open>BochanAudioPlayer::queueData\<close> is missing. It
  "appends buffer's valid bytes to the internal store"; "if appending would grow the store's
  unread-bytes length beyond maxBufferSize, the call enforces the cap - policy: reject
  (return 0 bytes queued)"; it "returns the number of bytes actually queued"; a call before
  \<^verbatim>\<open>initialize\<close> is "reported via boolean/sentinel return".
\<close>

definition queueData :: "BochanAudioPlayer \<Rightarrow> byte list \<Rightarrow> BochanAudioPlayer \<times> nat" where
  "queueData p buff =
     (if \<not> initialized p then (p, 0)
      else if length (unread p) + length buff > maxBufferSize p then (p, 0)
      else (p\<lparr>sampleBuffer := sampleBuffer p @ buff\<rparr>, length buff))"

text \<open>
  Modelled from the spec: compaction "discards the consumed prefix before the cursor" and
  "must preserve unread bytes exactly".
\<close>

definition compact :: "BochanAudioPlayer \<Rightarrow> BochanAudioPlayer" where
  "compact p = p\<lparr>sampleBuffer := drop (sampleBufferPos p) (sampleBuffer p),
                 sampleBufferPos := 0\<rparr>"

text \<open>
  Modelled from the spec: the body of \<^verbatim>\<open>BochanAudioPlayer::fillData\<close> is missing. It
  "copies up to len bytes starting at the read cursor into stream; advances the cursor; if
  fewer than len bytes are available, the remainder of stream is zero-filled", and it
  "periodically compacts the store". The specification does not say when a compaction is
  due, so that decision is the parameter \<open>due\<close>, a predicate on the cursor and the stored
  length after the copy. The requested length is a count, so the negative values of the
  \<^verbatim>\<open>int\<close> parameter are left out. The result is the new player state and the contents
  of \<^verbatim>\<open>stream[0..len)\<close>.
\<close>

definition fillData ::
  "(nat \<Rightarrow> nat \<Rightarrow> bool) \<Rightarrow> BochanAudioPlayer \<Rightarrow> nat \<Rightarrow> BochanAudioPlayer \<times> byte list" where
  "fillData due p len =
     (let avail = length (sampleBuffer p) - sampleBufferPos p;
          n = min len avail;
          stream = take n (drop (sampleBufferPos p) (sampleBuffer p)) @ replicate (len - n) 0;
          p' = p\<lparr>sampleBufferPos := sampleBufferPos p + n\<rparr>
      in (if due (sampleBufferPos p') (length (sampleBuffer p')) then compact p' else p',
          stream))"

text \<open>Modelled from the spec: \<^verbatim>\<open>flush\<close> "resets the store and cursor to empty".\<close>

definition flush :: "BochanAudioPlayer \<Rightarrow> BochanAudioPlayer" where
  "flush p = p\<lparr>sampleBuffer := [], sampleBufferPos := 0\<rparr>"

text \<open>
  A producer's sequence of \<^verbatim>\<open>queueData\<close> calls, with the count each call returned, and the
  callback's sequence of \<^verbatim>\<open>fillData\<close> calls, with the stream each call produced.
\<close>

fun queueAll :: "BochanAudioPlayer \<Rightarrow> byte list list \<Rightarrow> BochanAudioPlayer \<times> nat list" where
  "queueAll p [] = (p, [])"
| "queueAll p (b # bs) =
     (case queueData p b of (p', n) \<Rightarrow>
        (case queueAll p' bs of (p'', ns) \<Rightarrow> (p'', n # ns)))"

fun fillAll ::
  "(nat \<Rightarrow> nat \<Rightarrow> bool) \<Rightarrow> BochanAudioPlayer \<Rightarrow> nat list \<Rightarrow> BochanAudioPlayer \<times> byte list list" where
  "fillAll due p [] = (p, [])"
| "fillAll due p (l # ls) =
     (case fillData due p l of (p', s) \<Rightarrow>
        (case fillAll due p' ls of (p'', ss) \<Rightarrow> (p'', s # ss)))"

section \<open>BochanEncoder: data\<close>

text \<open>
  \<^verbatim>\<open>BochanEncoder.cpp\<close> is translated function by function. C's \<^verbatim>\<open>int\<close> is a 32-bit word read
  with \<open>sint\<close>, \<^verbatim>\<open>size_t\<close> and \<^verbatim>\<open>unsigned long long\<close> are 64-bit words. A call
  either returns, or stops the process at a failed \<^verbatim>\<open>assert\<close>, or dereferences a null member
  pointer; the last two are values of \<open>outcome\<close>. Logging is not modelled.
\<close>

type_synonym c_int = "32 word"
type_synonym size_t = "64 word"
type_synonym addr = nat
type_synonym memory = "addr \<Rightarrow> byte"

datatype 'a outcome = Returned 'a | AssertionFailed | NullDereference

text \<open>The sample formats of the codec library, in the order of its enumeration.\<close>

datatype AVSampleFormat =
    AV_SAMPLE_FMT_NONE | AV_SAMPLE_FMT_U8 | AV_SAMPLE_FMT_S16 | AV_SAMPLE_FMT_S32
  | AV_SAMPLE_FMT_FLT | AV_SAMPLE_FMT_DBL | AV_SAMPLE_FMT_U8P | AV_SAMPLE_FMT_S16P
  | AV_SAMPLE_FMT_S32P | AV_SAMPLE_FMT_FLTP | AV_SAMPLE_FMT_DBLP | AV_SAMPLE_FMT_S64
  | AV_SAMPLE_FMT_S64P

text \<open>
  The enumeration \<^verbatim>\<open>BochanCodec\<close> is declared outside the available sources; the code only
  names its member \<^verbatim>\<open>None\<close>. Every other member is \<open>BochanCodec_Other n\<close>.
\<close>

datatype BochanCodec = BochanCodec_None | BochanCodec_Other nat

type_synonym AVCodecID = nat

definition AV_CODEC_ID_NONE :: AVCodecID where
  "AV_CODEC_ID_NONE = 0"

datatype AVCodec = AVCodec (long_name: string)

text \<open>
  The fields of the codec context, the frame and the packet that the encoder reads or
  writes. \<open>priv_data\<close> stands for the codec's internal state. A frame's \<open>data\<close> maps a plane
  index and a byte offset to the byte stored there: the planes are raw buffers owned by the
  codec library, and the model puts no bound on an offset.
\<close>

record 'p AVCodecContext =
  sample_fmt :: AVSampleFormat
  bit_rate :: "64 word"
  sample_rate :: c_int
  channel_layout :: "64 word"
  channels :: c_int
  frame_size :: c_int
  extradata :: "byte list option"
  priv_data :: 'p

record AVFrame =
  nb_samples :: c_int
  format :: AVSampleFormat
  frame_channel_layout :: "64 word"
  frame_channels :: c_int
  data :: "nat \<Rightarrow> nat \<Rightarrow> byte"

record AVPacket =
  packet_data :: "byte list"

text \<open>
  A \<^verbatim>\<open>ByteBuffer*\<close> argument. \<open>address\<close> is the value of the pointer itself, that is where
  the \<^verbatim>\<open>ByteBuffer\<close> object lives; \<open>pointer\<close> is what \<^verbatim>\<open>getPointer()\<close> returns, the start
  of the sample bytes; \<open>usedSize\<close> is what \<^verbatim>\<open>getUsedSize()\<close> returns. Both addresses index
  one flat byte-addressed \<open>memory\<close>.
\<close>

record ByteBuffer =
  address :: addr
  pointer :: addr
  usedSize :: size_t

text \<open>
  Everything the encoder calls but does not define: the helpers and constants of
  \<^verbatim>\<open>CodecUtil\<close> and the functions of the codec library. They are parameters of the model.
  An allocation returns \<open>None\<close> for a null pointer. \<^verbatim>\<open>av_frame_get_buffer\<close> returns its
  status and the planes it allocated; \<^verbatim>\<open>avcodec_send_frame\<close> and
  \<^verbatim>\<open>avcodec_receive_packet\<close> return their status and the codec's new internal state, the
  latter also the packet it filled.
\<close>

record 'p Backend =
  getCodecSampleFormat :: "BochanCodec \<Rightarrow> AVSampleFormat"
  getCodecId :: "BochanCodec \<Rightarrow> AVCodecID"
  isSampleRateSupported :: "AVCodec \<Rightarrow> c_int \<Rightarrow> bool"
  isFormatSupported :: "AVCodec \<Rightarrow> AVSampleFormat \<Rightarrow> bool"
  CHANNEL_LAYOUT :: "64 word"
  CHANNELS :: c_int
  DEFAULT_FRAMESIZE :: c_int
  int16ToFloat :: "16 word \<Rightarrow> 32 word"
  avcodec_find_encoder :: "AVCodecID \<Rightarrow> AVCodec option"
  avcodec_alloc_context3 :: "AVCodec \<Rightarrow> 'p AVCodecContext option"
  avcodec_open2 :: "'p AVCodecContext \<Rightarrow> AVCodec \<Rightarrow> c_int \<times> 'p AVCodecContext"
  av_packet_alloc :: "AVPacket option"
  av_frame_alloc :: "AVFrame option"
  av_frame_get_buffer :: "AVFrame \<Rightarrow> c_int \<times> (nat \<Rightarrow> nat \<Rightarrow> byte)"
  av_get_bytes_per_sample :: "AVSampleFormat \<Rightarrow> c_int"
  av_frame_make_writable :: "AVFrame \<Rightarrow> c_int"
  avcodec_send_frame :: "'p AVCodecContext \<Rightarrow> AVFrame \<Rightarrow> c_int \<times> 'p"
  avcodec_receive_packet :: "'p AVCodecContext \<Rightarrow> AVPacket \<Rightarrow> c_int \<times> AVPacket \<times> 'p"

text \<open>\<^verbatim>\<open>AVERROR(EAGAIN)\<close> and \<^verbatim>\<open>AVERROR_EOF\<close>, the negated tag \<^verbatim>\<open>'E','O','F',' '\<close>.\<close>

definition AVERROR_EAGAIN :: c_int where
  "AVERROR_EAGAIN = - 11"

definition AVERROR_EOF :: c_int where
  "AVERROR_EOF = - 541478725"

text \<open>
  The members of \<^verbatim>\<open>BochanEncoder\<close>. The member \<^verbatim>\<open>context\<close> is spelled \<open>context'\<close>, since
  \<^verbatim>\<open>context\<close> is a keyword here. The buffer pool only hands out the buffers of the
  result, which the model returns as byte lists.
\<close>

record 'p BochanEncoder =
  initialized :: bool
  bochanCodec :: BochanCodec
  sampleRate :: c_int
  bitRate :: "64 word"
  sampleFormat :: AVSampleFormat
  codecId :: AVCodecID
  codec :: "AVCodec option"
  context' :: "'p AVCodecContext option"
  packet :: "AVPacket option"
  frame :: "AVFrame option"
  bytesPerSample :: c_int

section \<open>BochanEncoder: operations\<close>

text \<open>\<^verbatim>\<open>BochanEncoder::deinitialize\<close>, lines 95 to 114.\<close>

definition deinitialize :: "'p BochanEncoder \<Rightarrow> 'p BochanEncoder" where
  "deinitialize s =
     s\<lparr>initialized := False,
       frame := None,
       packet := None,
       context' := None,
       sampleFormat := AV_SAMPLE_FMT_NONE,
       bytesPerSample := 0,
       codec := None,
       codecId := AV_CODEC_ID_NONE,
       bochanCodec := BochanCodec_None,
       sampleRate := 0,
       bitRate := 0\<rparr>"

text \<open>
  \<^verbatim>\<open>BochanEncoder::initialize\<close>, lines 11 to 93, in three parts: \<open>initialize\<close> is lines 11
  to 43, \<open>openContext\<close> lines 44 to 71 and \<open>allocateFrame\<close> lines 72 to 92;
  \<open>configureFrame\<close> is lines 78 to 81, \<open>configureContext\<close> lines 50 to 54 and
  \<open>defaultFrameSize\<close> lines 62 to 65. The result is the returned flag and the encoder
  afterwards.
\<close>

definition configureFrame :: "'p AVCodecContext \<Rightarrow> AVFrame \<Rightarrow> AVFrame" where
  "configureFrame ctx f =
     f\<lparr>nb_samples := frame_size ctx,
       format := sample_fmt ctx,
       frame_channel_layout := channel_layout ctx,
       frame_channels := channels ctx\<rparr>"

definition allocateFrame ::
  "'p Backend \<Rightarrow> 'p BochanEncoder \<Rightarrow> 'p AVCodecContext \<Rightarrow> bool \<times> 'p BochanEncoder" where
  "allocateFrame B s ctx =
     (case av_frame_alloc B of
        None \<Rightarrow> (False, deinitialize (s\<lparr>frame := None\<rparr>))
      | Some f0 \<Rightarrow>
          (let f1 = configureFrame ctx f0;
               (ret, planes) = av_frame_get_buffer B f1;
               s' = s\<lparr>frame := Some (f1\<lparr>data := planes\<rparr>)\<rparr>
           in if ret <s 0 then (False, deinitialize s')
              else (True, s'\<lparr>bytesPerSample := av_get_bytes_per_sample B (sample_fmt ctx),
                            initialized := True\<rparr>)))"

definition configureContext ::
  "'p Backend \<Rightarrow> AVSampleFormat \<Rightarrow> c_int \<Rightarrow> 64 word \<Rightarrow> 'p AVCodecContext \<Rightarrow>
     'p AVCodecContext" where
  "configureContext B sampleFormat' sampleRate' bitRate' ctx =
     ctx\<lparr>sample_fmt := sampleFormat',
         bit_rate := bitRate',
         sample_rate := sampleRate',
         channel_layout := CHANNEL_LAYOUT B,
         channels := CHANNELS B\<rparr>"

definition defaultFrameSize :: "'p Backend \<Rightarrow> 'p AVCodecContext \<Rightarrow> 'p AVCodecContext" where
  "defaultFrameSize B ctx =
     (if frame_size ctx = 0 then ctx\<lparr>frame_size := DEFAULT_FRAMESIZE B\<rparr> else ctx)"

definition openContext ::
  "'p Backend \<Rightarrow> 'p BochanEncoder \<Rightarrow> AVCodec \<Rightarrow> c_int \<Rightarrow> 64 word \<Rightarrow>
     bool \<times> 'p BochanEncoder" where
  "openContext B s c sampleRate' bitRate' =
     (case avcodec_alloc_context3 B c of
        None \<Rightarrow> (False, deinitialize (s\<lparr>context' := None\<rparr>))
      | Some ctx0 \<Rightarrow>
          (let ctx1 = configureContext B (sampleFormat s) sampleRate' bitRate' ctx0;
               (ret, ctx2) = avcodec_open2 B ctx1 c
           in if ret <s 0 then (False, deinitialize (s\<lparr>context' := Some ctx2\<rparr>))
              else
                (let ctx3 = defaultFrameSize B ctx2;
                     s' = s\<lparr>context' := Some ctx3\<rparr>
                 in case av_packet_alloc B of
                      None \<Rightarrow> (False, deinitialize (s'\<lparr>packet := None\<rparr>))
                    | Some pkt \<Rightarrow> allocateFrame B (s'\<lparr>packet := Some pkt\<rparr>) ctx3)))"

definition initialize ::
  "'p Backend \<Rightarrow> 'p BochanEncoder \<Rightarrow> BochanCodec \<Rightarrow> c_int \<Rightarrow> 64 word \<Rightarrow>
     bool \<times> 'p BochanEncoder" where
  "initialize B s0 bochanCodec' sampleRate' bitRate' =
     (let s1 = (if initialized s0 then deinitialize s0 else s0);
          s2 = s1\<lparr>bochanCodec := bochanCodec',
                   sampleRate := sampleRate',
                   bitRate := bitRate',
                   sampleFormat := getCodecSampleFormat B bochanCodec',
                   codecId := getCodecId B bochanCodec'\<rparr>
      in if codecId s2 = AV_CODEC_ID_NONE then (False, deinitialize s2)
         else
           (case avcodec_find_encoder B (codecId s2) of
              None \<Rightarrow> (False, deinitialize (s2\<lparr>codec := None\<rparr>))
            | Some c \<Rightarrow>
                (let s3 = s2\<lparr>codec := Some c\<rparr>
                 in if \<not> isSampleRateSupported B c sampleRate' then (False, deinitialize s3)
                    else if \<not> isFormatSupported B c (sampleFormat s3)
                    then (False, deinitialize s3)
                    else openContext B s3 c sampleRate' bitRate')))"

text \<open>The accessors, lines 116 to 151.\<close>

definition isInitialized :: "'p BochanEncoder \<Rightarrow> bool" where
  "isInitialized s = initialized s"

definition getCodec :: "'p BochanEncoder \<Rightarrow> BochanCodec" where
  "getCodec s = bochanCodec s"

definition getSampleRate :: "'p BochanEncoder \<Rightarrow> c_int" where
  "getSampleRate s = sampleRate s"

definition getBitRate :: "'p BochanEncoder \<Rightarrow> 64 word" where
  "getBitRate s = bitRate s"

definition getSamplesPerFrame :: "'p BochanEncoder \<Rightarrow> c_int outcome" where
  "getSamplesPerFrame s =
     (if initialized s
      then (case context' s of None \<Rightarrow> NullDereference | Some ctx \<Rightarrow> Returned (frame_size ctx))
      else Returned 0)"

text \<open>
  In \<^verbatim>\<open>context->frame_size * sizeof(uint16_t) * context->channels\<close> both \<^verbatim>\<open>int\<close> operands
  are converted to \<^verbatim>\<open>size_t\<close> (sign-extended), the product is computed in 64 bits, and the
  \<^verbatim>\<open>int\<close> return type keeps its low 32 bits.
\<close>

definition getInputBufferByteSize :: "'p BochanEncoder \<Rightarrow> c_int outcome" where
  "getInputBufferByteSize s =
     (if initialized s
      then (case context' s of
              None \<Rightarrow> NullDereference
            | Some ctx \<Rightarrow>
                Returned (ucast ((scast (frame_size ctx) :: size_t) * 2 * scast (channels ctx))))
      else Returned 0)"

definition hasExtradata :: "'p BochanEncoder \<Rightarrow> bool outcome" where
  "hasExtradata s =
     (if initialized s
      then (case context' s of
              None \<Rightarrow> NullDereference
            | Some ctx \<Rightarrow> Returned (extradata ctx \<noteq> None))
      else Returned False)"

definition getExtradata :: "'p BochanEncoder \<Rightarrow> byte list option outcome" where
  "getExtradata s =
     (case hasExtradata s of
        Returned True \<Rightarrow>
          (case context' s of None \<Rightarrow> NullDereference | Some ctx \<Rightarrow> Returned (extradata ctx))
      | Returned False \<Rightarrow> Returned None
      | AssertionFailed \<Rightarrow> AssertionFailed
      | NullDereference \<Rightarrow> NullDereference)"

text \<open>
  Memory accesses of \<^verbatim>\<open>encode\<close>. A 16-bit sample is read and a 16-bit or 32-bit value is
  written low byte first. \<open>store16 plane i v\<close> is \<^verbatim>\<open>((uint16_t*)plane)[i] = v\<close>,
  \<open>store32 plane i v\<close> is \<^verbatim>\<open>((float*)plane)[i] = v\<close> with the float given by its 32 bits,
  \<open>load32 plane i\<close> reads that slot back, and \<open>memcpy dst mem src n\<close> copies the \<open>n\<close> bytes of \<open>mem\<close> from address \<open>src\<close> on to the
  start of \<open>dst\<close>.
\<close>

definition load16 :: "memory \<Rightarrow> addr \<Rightarrow> 16 word" where
  "load16 mem a = word_cat (mem (a + 1)) (mem a)"

definition store16 :: "(nat \<Rightarrow> byte) \<Rightarrow> nat \<Rightarrow> 16 word \<Rightarrow> (nat \<Rightarrow> byte)" where
  "store16 plane i v = plane(2 * i := ucast v, 2 * i + 1 := ucast (drop_bit 8 v))"

definition store32 :: "(nat \<Rightarrow> byte) \<Rightarrow> nat \<Rightarrow> 32 word \<Rightarrow> (nat \<Rightarrow> byte)" where
  "store32 plane i v =
     plane(4 * i := ucast v, 4 * i + 1 := ucast (drop_bit 8 v),
           4 * i + 2 := ucast (drop_bit 16 v), 4 * i + 3 := ucast (drop_bit 24 v))"

definition load32 :: "(nat \<Rightarrow> byte) \<Rightarrow> nat \<Rightarrow> 32 word" where
  "load32 plane i =
     word_cat (plane (4 * i + 3))
       (word_cat (plane (4 * i + 2)) (word_cat (plane (4 * i + 1)) (plane (4 * i)) :: 16 word)
          :: 24 word)"

definition memcpy :: "(nat \<Rightarrow> byte) \<Rightarrow> memory \<Rightarrow> addr \<Rightarrow> nat \<Rightarrow> (nat \<Rightarrow> byte)" where
  "memcpy dst mem src n = (\<lambda>k. if k < n then mem (src + k) else dst k)"

text \<open>
  Line 154, \<^verbatim>\<open>assert(samples->getUsedSize() == getInputBufferByteSize())\<close>: the \<^verbatim>\<open>int\<close> is
  converted to \<^verbatim>\<open>size_t\<close> for the comparison.
\<close>

definition sizeAssertion :: "'p BochanEncoder \<Rightarrow> ByteBuffer \<Rightarrow> unit outcome" where
  "sizeAssertion s samples =
     (case getInputBufferByteSize s of
        Returned n \<Rightarrow> if usedSize samples = scast n then Returned () else AssertionFailed
      | AssertionFailed \<Rightarrow> AssertionFailed
      | NullDereference \<Rightarrow> NullDereference)"

text \<open>Lines 161 and 162.\<close>

definition expectedSamples :: "AVFrame \<Rightarrow> size_t" where
  "expectedSamples f = scast (nb_samples f * frame_channels f)"

definition providedSamples :: "ByteBuffer \<Rightarrow> size_t" where
  "providedSamples samples = usedSize samples div 2"

text \<open>
  The two nested loops of the planar cases, lines 172 to 176 and 187 to 191: \<open>i\<close> runs over
  the samples of a channel and \<open>j\<close> over the channels. A count that is not positive gives
  no iteration. The index \<^verbatim>\<open>i * frame->channels + j\<close> is computed without wrap-around.
\<close>

definition planarS16 ::
  "memory \<Rightarrow> addr \<Rightarrow> nat \<Rightarrow> nat \<Rightarrow> (nat \<Rightarrow> nat \<Rightarrow> byte) \<Rightarrow> (nat \<Rightarrow> nat \<Rightarrow> byte)" where
  "planarS16 mem uint16ptr nb ch planes =
     fold (\<lambda>i. fold (\<lambda>j d. d(j := store16 (d j) i (load16 mem (uint16ptr + 2 * (i * ch + j)))))
                     [0..<ch])
          [0..<nb] planes"

definition planarFLT ::
  "(16 word \<Rightarrow> 32 word) \<Rightarrow> memory \<Rightarrow> addr \<Rightarrow> nat \<Rightarrow> nat \<Rightarrow>
     (nat \<Rightarrow> nat \<Rightarrow> byte) \<Rightarrow> (nat \<Rightarrow> nat \<Rightarrow> byte)" where
  "planarFLT toFloat mem int16ptr nb ch planes =
     fold (\<lambda>i. fold (\<lambda>j d. d(j := store32 (d j) i
                                      (toFloat (load16 mem (int16ptr + 2 * (i * ch + j))))))
                     [0..<ch])
          [0..<nb] planes"

text \<open>
  Modelled from the spec: the overload \<^verbatim>\<open>CodecUtil::int16ToFloat(ByteBuffer*, float*)\<close> is
  missing. For interleaved float the specification says "normalize int16 to float, keep
  interleaved": sample \<open>k\<close> of the buffer is converted into slot \<open>k\<close> of the destination.
\<close>

definition int16ToFloatBuffer ::
  "(16 word \<Rightarrow> 32 word) \<Rightarrow> memory \<Rightarrow> ByteBuffer \<Rightarrow> (nat \<Rightarrow> byte) \<Rightarrow> (nat \<Rightarrow> byte)" where
  "int16ToFloatBuffer toFloat mem samples dst =
     fold (\<lambda>k d. store32 d k (toFloat (load16 mem (pointer samples + 2 * k))))
          [0..<unat (usedSize samples) div 2] dst"

text \<open>
  The \<^verbatim>\<open>switch\<close> of lines 168 to 204; \<open>None\<close> is its \<^verbatim>\<open>default\<close> case. In the case
  \<^verbatim>\<open>AV_SAMPLE_FMT_S16\<close> the source of the copy is \<^verbatim>\<open>samples\<close>, the address of the buffer
  object, where the other cases read from \<^verbatim>\<open>samples->getPointer()\<close>.
\<close>

definition convertSamples ::
  "'p Backend \<Rightarrow> memory \<Rightarrow> AVFrame \<Rightarrow> ByteBuffer \<Rightarrow> AVFrame option" where
  "convertSamples B mem f samples =
     (let nb = nat (sint (nb_samples f)); ch = nat (sint (frame_channels f))
      in case format f of
           AV_SAMPLE_FMT_S16P \<Rightarrow>
             Some (f\<lparr>data := planarS16 mem (pointer samples) nb ch (data f)\<rparr>)
         | AV_SAMPLE_FMT_S16 \<Rightarrow>
             Some (f\<lparr>data := (data f)
                     (0 := memcpy (data f 0) mem (address samples) (unat (usedSize samples)))\<rparr>)
         | AV_SAMPLE_FMT_FLTP \<Rightarrow>
             Some (f\<lparr>data := planarFLT (int16ToFloat B) mem (pointer samples) nb ch (data f)\<rparr>)
         | AV_SAMPLE_FMT_FLT \<Rightarrow>
             Some (f\<lparr>data := (data f)
                     (0 := int16ToFloatBuffer (int16ToFloat B) mem samples (data f 0))\<rparr>)
         | _ \<Rightarrow> None)"

text \<open>
  The loop of lines 212 to 225. It ends when the codec reports \<^verbatim>\<open>EAGAIN\<close> or end of
  stream, or an error (then the result is empty); a codec that never does so keeps the loop
  running, which is the value \<open>None\<close>.
\<close>

partial_function (option) receivePackets ::
  "'p Backend \<Rightarrow> 'p AVCodecContext \<Rightarrow> AVPacket \<Rightarrow> byte list list \<Rightarrow>
     (byte list list \<times> 'p AVCodecContext \<times> AVPacket) option" where
  [code]: "receivePackets B ctx pkt result =
     (case avcodec_receive_packet B ctx pkt of
        (ret, pkt', priv') \<Rightarrow>
          if ret = AVERROR_EAGAIN \<or> ret = AVERROR_EOF
          then Some (result, ctx\<lparr>priv_data := priv'\<rparr>, pkt')
          else if ret <s 0 then Some ([], ctx\<lparr>priv_data := priv'\<rparr>, pkt')
          else receivePackets B (ctx\<lparr>priv_data := priv'\<rparr>) pkt' (result @ [packet_data pkt']))"

text \<open>
  \<^verbatim>\<open>BochanEncoder::encode\<close>, lines 153 to 227: \<open>encode\<close> is lines 154 to 167 and
  \<open>encodeFrame\<close> lines 168 to 226. \<open>assertions\<close> says whether \<^verbatim>\<open>assert\<close> is compiled in
  (no \<^verbatim>\<open>NDEBUG\<close>). The result is the packets returned and the encoder afterwards.
\<close>

definition encodeFrame ::
  "'p Backend \<Rightarrow> memory \<Rightarrow> 'p BochanEncoder \<Rightarrow> AVFrame \<Rightarrow> ByteBuffer \<Rightarrow>
     (byte list list \<times> 'p BochanEncoder) outcome option" where
  "encodeFrame B mem s f samples =
     (case convertSamples B mem f samples of
        None \<Rightarrow> Some (Returned ([], s))
      | Some f' \<Rightarrow>
          (case context' s of
             None \<Rightarrow> Some NullDereference
           | Some ctx \<Rightarrow>
               (case avcodec_send_frame B ctx f' of
                  (ret, priv') \<Rightarrow>
                    (let ctx1 = ctx\<lparr>priv_data := priv'\<rparr>;
                         s1 = s\<lparr>frame := Some f', context' := Some ctx1\<rparr>
                     in if ret <s 0 then Some (Returned ([], s1))
                        else
                          (case packet s1 of
                             None \<Rightarrow> Some NullDereference
                           | Some pkt \<Rightarrow>
                               map_option
                                 (\<lambda>(result, ctx2, pkt2).
                                    Returned (result, s1\<lparr>context' := Some ctx2,
                                                         packet := Some pkt2\<rparr>))
                                 (receivePackets B ctx1 pkt []))))))"

definition encode ::
  "bool \<Rightarrow> 'p Backend \<Rightarrow> memory \<Rightarrow> 'p BochanEncoder \<Rightarrow> ByteBuffer \<Rightarrow>
     (byte list list \<times> 'p BochanEncoder) outcome option" where
  "encode assertions B mem s samples =
     (case (if assertions then sizeAssertion s samples else Returned ()) of
        AssertionFailed \<Rightarrow> Some AssertionFailed
      | NullDereference \<Rightarrow> Some NullDereference
      | Returned _ \<Rightarrow>
          (case frame s of
             None \<Rightarrow> Some NullDereference
           | Some f \<Rightarrow>
               if av_frame_make_writable B f <s 0 then Some (Returned ([], s))
               else if providedSamples samples \<noteq> expectedSamples f then Some (Returned ([], s))
               else encodeFrame B mem s f samples))"

section \<open>BochanEncoder: states and an example codec\<close>

text \<open>The state that \<open>deinitialize\<close> leaves: every member at its neutral value.\<close>

definition uninitializedEncoder :: "'p BochanEncoder" where
  "uninitializedEncoder =
     \<lparr>initialized = False, bochanCodec = BochanCodec_None, sampleRate = 0, bitRate = 0,
      sampleFormat = AV_SAMPLE_FMT_NONE, codecId = AV_CODEC_ID_NONE, codec = None,
      context' = None, packet = None, frame = None, bytesPerSample = 0\<rparr>"

text \<open>
  What a successful \<open>initialize\<close> establishes and \<open>encode\<close> keeps: the flag is set, context,
  packet and frame exist, and the frame has the context's frame size, channel count and
  sample format.
\<close>

definition ready :: "'p BochanEncoder \<Rightarrow> bool" where
  "ready s \<longleftrightarrow>
     initialized s \<and>
     (case context' s of
        None \<Rightarrow> False
      | Some ctx \<Rightarrow>
          (case frame s of
             None \<Rightarrow> False
           | Some f \<Rightarrow>
               packet s \<noteq> None \<and> nb_samples f = frame_size ctx \<and>
               frame_channels f = channels ctx \<and> format f = sample_fmt ctx))"

text \<open>
  An example codec for concrete runs: two channels, every codec but \<^verbatim>\<open>None\<close> known, frame
  size \<open>fs\<close> (0 for a codec that imposes none), default frame size 1024. It queues the first
  four bytes of plane 0 of every frame it is sent and hands them out again as one packet per
  frame. For a frame size \<open>fs\<close> other than 0, \<open>exampleEncoder fmt fs\<close> is the encoder that
  \<open>initialize\<close> produces with it.
\<close>

definition exampleBackend :: "AVSampleFormat \<Rightarrow> c_int \<Rightarrow> byte list list Backend" where
  "exampleBackend fmt fs =
     \<lparr>getCodecSampleFormat = (\<lambda>c. fmt),
      getCodecId = (\<lambda>c. case c of BochanCodec_None \<Rightarrow> 0 | BochanCodec_Other n \<Rightarrow> Suc n),
      isSampleRateSupported = (\<lambda>c r. r = 48000),
      isFormatSupported = (\<lambda>c f. True),
      CHANNEL_LAYOUT = 3,
      CHANNELS = 2,
      DEFAULT_FRAMESIZE = 1024,
      int16ToFloat = (\<lambda>x. scast x),
      avcodec_find_encoder = (\<lambda>i. Some (AVCodec ''example'')),
      avcodec_alloc_context3 = (\<lambda>c. Some \<lparr>sample_fmt = AV_SAMPLE_FMT_NONE, bit_rate = 0,
         sample_rate = 0, channel_layout = 0, channels = 0, frame_size = 0,
         extradata = None, priv_data = []\<rparr>),
      avcodec_open2 = (\<lambda>ctx c. (0, ctx\<lparr>frame_size := fs\<rparr>)),
      av_packet_alloc = Some \<lparr>packet_data = []\<rparr>,
      av_frame_alloc = Some \<lparr>nb_samples = 0, format = AV_SAMPLE_FMT_NONE,
         frame_channel_layout = 0, frame_channels = 0, data = (\<lambda>j k. 0)\<rparr>,
      av_frame_get_buffer = (\<lambda>f. (0, (\<lambda>j k. 0))),
      av_get_bytes_per_sample = (\<lambda>f. 2),
      av_frame_make_writable = (\<lambda>f. 0),
      avcodec_send_frame = (\<lambda>ctx f. (0, priv_data ctx @ [map (data f 0) [0..<4]])),
      avcodec_receive_packet = (\<lambda>ctx pkt. case priv_data ctx of
          [] \<Rightarrow> (AVERROR_EAGAIN, pkt\<lparr>packet_data := []\<rparr>, [])
        | x # xs \<Rightarrow> (0, pkt\<lparr>packet_data := x\<rparr>, xs))\<rparr>"

definition exampleEncoder :: "AVSampleFormat \<Rightarrow> c_int \<Rightarrow> byte list list BochanEncoder" where
  "exampleEncoder fmt fs =
     \<lparr>initialized = True, bochanCodec = BochanCodec_Other 0, sampleRate = 48000,
      bitRate = 64000, sampleFormat = fmt, codecId = 1, codec = Some (AVCodec ''example''),
      context' = Some \<lparr>sample_fmt = fmt, bit_rate = 64000, sample_rate = 48000,
         channel_layout = 3, channels = 2, frame_size = fs, extradata = None, priv_data = []\<rparr>,
      packet = Some \<lparr>packet_data = []\<rparr>,
      frame = Some \<lparr>nb_samples = fs, format = fmt, frame_channel_layout = 3,
         frame_channels = 2, data = (\<lambda>j k. 0)\<rparr>,
      bytesPerSample = 2\<rparr>"

text \<open>
  An example memory: the sample bytes 1, 2, 3, ... at the addresses 100 to 109, the byte 255
  at the addresses 50 to 59, where the example buffer object lives, and 0 elsewhere.
\<close>

definition exampleMemory :: memory where
  "exampleMemory =
     (\<lambda>a. if 100 \<le> a \<and> a < 110 then of_nat (a - 99)
          else if 50 \<le> a \<and> a < 60 then 255 else 0)"

definition exampleBuffer :: "size_t \<Rightarrow> ByteBuffer" where
  "exampleBuffer n = \<lparr>address = 50, pointer = 100, usedSize = n\<rparr>"

section \<open>Properties of the playback queue\<close>

lemma unread_compact: "unread (compact p) = unread p"
  by (simp add: unread_def compact_def)

lemma fillData_stream:
  "snd (fillData due p len) =
     take len (unread p) @ replicate (len - length (unread p)) 0"
  by (simp add: fillData_def unread_def Let_def min_def)

lemma fillData_unread: "unread (fst (fillData due p len)) = drop len (unread p)"
  by (auto simp add: fillData_def unread_def Let_def min_def compact_def add.commute)

lemma flush_empty: "unread (flush p) = [] \<and> playerInvariant (flush p)"
  by (simp add: flush_def unread_def playerInvariant_def)

lemma flush_then_fillData: "snd (fillData due (flush p) len) = replicate len 0"
  by (simp add: fillData_stream flush_empty)

lemma fillData_fields:
  "BochanAudioPlayer.initialized (fst (fillData due p len)) = BochanAudioPlayer.initialized p"
  "maxBufferSize (fst (fillData due p len)) = maxBufferSize p"
  by (simp_all add: fillData_def Let_def compact_def)

lemma fillData_invariant: "playerInvariant p \<Longrightarrow> playerInvariant (fst (fillData due p len))"
  by (auto simp add: fillData_def Let_def compact_def playerInvariant_def min_def)

lemma queueData_invariant: "playerInvariant p \<Longrightarrow> playerInvariant (fst (queueData p buff))"
  by (simp add: queueData_def playerInvariant_def)

lemma queueData_accept:
  assumes "BochanAudioPlayer.initialized p" and "playerInvariant p"
    and "length (unread p) + length buff \<le> maxBufferSize p"
  shows "snd (queueData p buff) = length buff"
    and "unread (fst (queueData p buff)) = unread p @ buff"
    and "BochanAudioPlayer.initialized (fst (queueData p buff))"
    and "maxBufferSize (fst (queueData p buff)) = maxBufferSize p"
  using assms by (simp_all add: queueData_def unread_def playerInvariant_def)

lemma queueAll_accept:
  "BochanAudioPlayer.initialized p \<Longrightarrow> playerInvariant p \<Longrightarrow>
   length (unread p) + length (concat bufs) \<le> maxBufferSize p \<Longrightarrow>
   snd (queueAll p bufs) = map length bufs \<and>
   unread (fst (queueAll p bufs)) = unread p @ concat bufs \<and>
   BochanAudioPlayer.initialized (fst (queueAll p bufs)) \<and>
   maxBufferSize (fst (queueAll p bufs)) = maxBufferSize p"
proof (induction bufs arbitrary: p)
  case Nil
  then show ?case by simp
next
  case (Cons b bs)
  let ?q = "fst (queueData p b)"
  have fit: "length (unread p) + length b \<le> maxBufferSize p"
    using Cons.prems(3) by simp
  note acc = queueData_accept [OF Cons.prems(1,2) fit]
  have inv: "playerInvariant ?q"
    using Cons.prems(2) by (rule queueData_invariant)
  have "length (unread ?q) + length (concat bs) \<le> maxBufferSize ?q"
    using Cons.prems(3) acc by simp
  from Cons.IH [OF acc(3) inv this] acc show ?case
    by (simp add: split_beta)
qed

lemma fillAll_exact:
  "sum_list lens = length (unread p) \<Longrightarrow>
   concat (snd (fillAll due p lens)) = unread p \<and> unread (fst (fillAll due p lens)) = []"
proof (induction lens arbitrary: p)
  case Nil
  then show ?case by simp
next
  case (Cons l ls)
  let ?q = "fst (fillData due p l)"
  have le: "l \<le> length (unread p)"
    using Cons.prems by simp
  have "sum_list ls = length (unread ?q)"
    using Cons.prems by (simp add: fillData_unread)
  from Cons.IH [OF this] le show ?case
    by (simp add: split_beta fillData_stream fillData_unread)
qed

text \<open>
  C1. Take an initialized player whose queue is empty (a freshly initialized one, or one
  that was flushed or drained), and let a sequence of \<^verbatim>\<open>queueData\<close> calls queue at most
  \<^verbatim>\<open>maxBufferSize\<close> bytes in total. Then every call reports its whole buffer as queued, and
  a following sequence of \<^verbatim>\<open>fillData\<close> calls whose requested lengths add up to exactly that
  total delivers streams whose concatenation is the concatenation of the queued buffers, in
  order and with no silence byte added; nothing is left unread afterwards. This holds
  whenever the compactions happen.
\<close>

theorem queue_then_fill_reproduces:
  assumes "BochanAudioPlayer.initialized p0" and "playerInvariant p0" and "unread p0 = []"
    and "length (concat bufs) \<le> maxBufferSize p0"
    and "sum_list lens = length (concat bufs)"
  shows "snd (queueAll p0 bufs) = map length bufs \<and>
         concat (snd (fillAll due (fst (queueAll p0 bufs)) lens)) = concat bufs \<and>
         unread (fst (fillAll due (fst (queueAll p0 bufs)) lens)) = []"
proof -
  have "length (unread p0) + length (concat bufs) \<le> maxBufferSize p0"
    using assms(3,4) by simp
  from queueAll_accept [OF assms(1,2) this] assms(3)
  have q: "snd (queueAll p0 bufs) = map length bufs"
    "unread (fst (queueAll p0 bufs)) = concat bufs"
    by simp_all
  have "sum_list lens = length (unread (fst (queueAll p0 bufs)))"
    using assms(5) q(2) by simp
  from fillAll_exact [OF this, of due] q show ?thesis
    by simp
qed

theorem queue_then_fill_reproduces_witness:
  "initialize_player True 48000 4 8 =
     (True, \<lparr>BochanAudioPlayer.initialized = True, playing = False, sampleBuffer = [],
             sampleBufferPos = 0, minBufferSize = 4, maxBufferSize = 8\<rparr>) \<and>
   snd (queueAll \<lparr>BochanAudioPlayer.initialized = True, playing = False, sampleBuffer = [],
          sampleBufferPos = 0, minBufferSize = 4, maxBufferSize = 8\<rparr>
        [[1, 2, 3], [4, 5]]) = [3, 2] \<and>
   concat (snd (fillAll (\<lambda>pos len. 2 \<le> pos)
     (fst (queueAll \<lparr>BochanAudioPlayer.initialized = True, playing = False, sampleBuffer = [],
             sampleBufferPos = 0, minBufferSize = 4, maxBufferSize = 8\<rparr>
        [[1, 2, 3], [4, 5]])) [2, 2, 1])) = [1, 2, 3, 4, 5]"
proof -
  let ?p = "\<lparr>BochanAudioPlayer.initialized = True, playing = False, sampleBuffer = [],
             sampleBufferPos = 0, minBufferSize = 4, maxBufferSize = 8\<rparr>"
  have i: "initialize_player True 48000 4 8 = (True, ?p)"
    by (simp add: initialize_player_def)
  have a: "BochanAudioPlayer.initialized ?p" by simp
  have b: "playerInvariant ?p" by (simp add: playerInvariant_def)
  have c: "unread ?p = []" by (simp add: unread_def)
  have l: "length (concat [[1, 2, 3], [4, 5 :: byte]]) \<le> maxBufferSize ?p" by simp
  have s: "sum_list [2, 2, 1] = length (concat [[1, 2, 3], [4, 5 :: byte]])" by simp
  from queue_then_fill_reproduces [OF a b c l s, of "\<lambda>pos len. 2 \<le> pos"] i
  show ?thesis by simp
qed

text \<open>
  C2. When \<^verbatim>\<open>fillData\<close> is asked for more bytes than are unread (in a state that satisfies
  the queue invariant), the stream holds every
  unread byte followed by zero bytes for the whole shortfall, so all \<open>len\<close> positions are
  defined. Bytes queued after that call (any buffer that fits \<^verbatim>\<open>maxBufferSize\<close>) are accepted
  in full and the next \<^verbatim>\<open>fillData\<close> calls deliver exactly them.
\<close>

theorem fillData_underrun:
  assumes "BochanAudioPlayer.initialized p"
    and "playerInvariant p"
    and "length (unread p) < len"
    and "length buff \<le> maxBufferSize p"
  shows "snd (fillData due p len) = unread p @ replicate (len - length (unread p)) 0 \<and>
         length (snd (fillData due p len)) = len \<and>
         snd (queueData (fst (fillData due p len)) buff) = length buff \<and>
         unread (fst (queueData (fst (fillData due p len)) buff)) = buff \<and>
         snd (fillData due (fst (queueData (fst (fillData due p len)) buff)) (length buff)) = buff"
proof -
  let ?q = "fst (fillData due p len)"
  have s: "snd (fillData due p len) = unread p @ replicate (len - length (unread p)) 0"
    using assms(3) by (simp add: fillData_stream)
  have e: "unread ?q = []"
    using assms(3) by (simp add: fillData_unread)
  have "BochanAudioPlayer.initialized ?q" and "playerInvariant ?q"
    and "length (unread ?q) + length buff \<le> maxBufferSize ?q"
    using assms(1,2,4) e by (simp_all add: fillData_fields fillData_invariant)
  note acc = queueData_accept [OF this]
  show ?thesis
    using s e acc assms(3) by (simp add: fillData_stream)
qed

theorem fillData_underrun_witness:
  "snd (fillData (\<lambda>pos len. False)
     \<lparr>BochanAudioPlayer.initialized = True, playing = True, sampleBuffer = [7, 8, 9], sampleBufferPos = 1,
      minBufferSize = 4, maxBufferSize = 8\<rparr> 4) = [8, 9, 0, 0]"
proof -
  let ?p = "\<lparr>BochanAudioPlayer.initialized = True, playing = True, sampleBuffer = [7, 8, 9 :: byte],
             sampleBufferPos = 1, minBufferSize = 4, maxBufferSize = 8\<rparr>"
  have a: "BochanAudioPlayer.initialized ?p" by simp
  have i: "playerInvariant ?p" by (simp add: playerInvariant_def)
  have b: "length (unread ?p) < 4" by (simp add: unread_def)
  have c: "length [1 :: byte] \<le> maxBufferSize ?p" by simp
  have "snd (fillData (\<lambda>pos len. False) ?p 4) =
          unread ?p @ replicate (4 - length (unread ?p)) 0"
    using fillData_underrun [OF a i b c, of "\<lambda>pos len. False"] by (rule conjunct1)
  then show ?thesis by (simp add: unread_def numeral_2_eq_2)
qed

section \<open>Word arithmetic of the size computations\<close>

lemma sint_byteSize:
  assumes "- (2 ^ 31) \<le> sint (a :: 32 word) * sint (b :: 32 word) * 2"
    and "sint a * sint b * 2 < 2 ^ 31"
  shows "sint (ucast ((scast a :: 64 word) * 2 * scast b) :: 32 word) = sint a * sint b * 2"
proof -
  define k where "k = sint a * sint b * 2"
  have e: "(scast a :: 64 word) * 2 * scast b = word_of_int k"
    unfolding k_def by simp
  have d: "(ucast (word_of_int k :: 64 word) :: 32 word) = word_of_int k"
    by (rule ucast_down_wi) (simp add: is_down)
  have "sint (word_of_int k :: 32 word) = signed_take_bit 31 k"
    by (simp add: sint_sbintrunc')
  also have "\<dots> = k"
    using assms unfolding k_def by (simp add: signed_take_bit_int_eq_self)
  finally show ?thesis
    unfolding e d by (simp add: k_def)
qed

lemma sint_mult_small:
  assumes "0 \<le> sint (a :: 32 word)" and "0 \<le> sint (b :: 32 word)"
    and "sint a * sint b * 2 < 2 ^ 31"
  shows "sint (a * b) = sint a * sint b"
proof -
  have nn: "0 \<le> sint a * sint b" using assms(1,2) by simp
  have "sint (a * b) = signed_take_bit 31 (sint a * sint b)"
    by (simp add: sint_word_ariths)
  also have "\<dots> = sint a * sint b"
    using nn assms(3) by (simp add: signed_take_bit_int_eq_self)
  finally show ?thesis .
qed

lemma unat_scast_nonneg:
  assumes "0 \<le> sint (a :: 32 word)"
  shows "unat (scast a :: 64 word) = nat (sint a)"
proof -
  define k where "k = sint a"
  have b: "k < 2 ^ 64" using sint_less [of a] by (simp add: k_def)
  have e: "(scast a :: 64 word) = word_of_int k"
    unfolding k_def by simp
  have "uint (word_of_int k :: 64 word) = take_bit 64 k"
    by (simp add: uint_word_of_int_eq)
  also have "\<dots> = k"
    using assms b by (simp add: take_bit_int_eq_self k_def)
  finally have u: "uint (word_of_int k :: 64 word) = k" .
  show ?thesis
    unfolding e unat_eq_nat_uint u by (simp only: k_def)
qed

lemma unat_byteSize:
  assumes "0 \<le> sint (a :: 32 word)" and "0 \<le> sint (b :: 32 word)"
    and "sint a * sint b * 2 < 2 ^ 31"
  shows "unat (scast (ucast ((scast a :: 64 word) * 2 * scast b) :: 32 word) :: 64 word) =
         2 * nat (sint a * sint b)"
proof -
  let ?n = "ucast ((scast a :: 64 word) * 2 * scast b) :: 32 word"
  have nn: "0 \<le> sint a * sint b" using assms(1,2) by simp
  have s: "sint ?n = sint a * sint b * 2"
    using nn assms(3) by (intro sint_byteSize) simp_all
  have "0 \<le> sint ?n" using nn by (simp add: s)
  then have "unat (scast ?n :: 64 word) = nat (sint ?n)"
    by (rule unat_scast_nonneg)
  also have "\<dots> = 2 * nat (sint a * sint b)"
    using nn by (simp add: s nat_mult_distrib)
  finally show ?thesis .
qed

lemma unat_expectedSamples:
  assumes "0 \<le> sint (nb_samples f)" and "0 \<le> sint (frame_channels f)"
    and "sint (nb_samples f) * sint (frame_channels f) * 2 < 2 ^ 31"
  shows "unat (expectedSamples f) = nat (sint (nb_samples f) * sint (frame_channels f))"
proof -
  have m: "sint (nb_samples f * frame_channels f) = sint (nb_samples f) * sint (frame_channels f)"
    using assms by (rule sint_mult_small)
  have "0 \<le> sint (nb_samples f * frame_channels f)"
    using assms(1,2) by (simp add: m)
  then have "unat (scast (nb_samples f * frame_channels f) :: 64 word) =
      nat (sint (nb_samples f * frame_channels f))"
    by (rule unat_scast_nonneg)
  then show ?thesis
    by (simp add: expectedSamples_def m)
qed

lemma unat_providedSamples: "unat (providedSamples samples) = unat (usedSize samples) div 2"
  by (simp add: providedSamples_def unat_div)

lemma sizeCheck_numeric:
  assumes "0 \<le> sint (nb_samples f)" and "0 \<le> sint (frame_channels f)"
    and "sint (nb_samples f) * sint (frame_channels f) * 2 < 2 ^ 31"
  shows "providedSamples samples \<noteq> expectedSamples f \<longleftrightarrow>
         unat (usedSize samples) div 2 \<noteq> nat (sint (nb_samples f) * sint (frame_channels f))"
  by (simp add: word_unat_eq_iff unat_providedSamples unat_expectedSamples [OF assms])

section \<open>Properties of initialize and deinitialize\<close>

lemma deinitialize_eq: "deinitialize s = uninitializedEncoder"
  by (simp add: deinitialize_def uninitializedEncoder_def)

lemma allocateFrame_False:
  "\<not> fst (allocateFrame B s ctx) \<Longrightarrow> snd (allocateFrame B s ctx) = uninitializedEncoder"
  by (auto simp add: allocateFrame_def deinitialize_eq Let_def
      split: option.splits prod.splits if_splits)

lemma openContext_False:
  "\<not> fst (openContext B s c sr br) \<Longrightarrow> snd (openContext B s c sr br) = uninitializedEncoder"
  by (auto simp add: openContext_def deinitialize_eq Let_def allocateFrame_False
      split: option.splits prod.splits if_splits)

lemma initialize_False:
  "\<not> fst (initialize B s0 bc sr br) \<Longrightarrow> snd (initialize B s0 bc sr br) = uninitializedEncoder"
  by (auto simp add: initialize_def deinitialize_eq Let_def openContext_False
      split: option.splits prod.splits if_splits)

lemma allocateFrame_succeeds:
  "fst (allocateFrame B s ctx) \<longleftrightarrow>
     (\<exists>f0. av_frame_alloc B = Some f0 \<and>
        \<not> fst (av_frame_get_buffer B (configureFrame ctx f0)) <s 0)"
  by (auto simp add: allocateFrame_def Let_def case_prod_beta split: option.splits)

lemma openContext_succeeds:
  "fst (openContext B s c sr br) \<longleftrightarrow>
     (\<exists>ctx0 pkt f0.
        avcodec_alloc_context3 B c = Some ctx0 \<and>
        \<not> fst (avcodec_open2 B (configureContext B (sampleFormat s) sr br ctx0) c) <s 0 \<and>
        av_packet_alloc B = Some pkt \<and>
        av_frame_alloc B = Some f0 \<and>
        \<not> fst (av_frame_get_buffer B
               (configureFrame
                  (defaultFrameSize B
                     (snd (avcodec_open2 B (configureContext B (sampleFormat s) sr br ctx0) c)))
                  f0)) <s 0)"
  by (auto simp add: openContext_def Let_def case_prod_beta allocateFrame_succeeds
      split: option.splits)

lemma initialize_succeeds:
  "fst (initialize B s0 bc sr br) \<longleftrightarrow>
     getCodecId B bc \<noteq> AV_CODEC_ID_NONE \<and>
     (\<exists>c ctx0 pkt f0.
        avcodec_find_encoder B (getCodecId B bc) = Some c \<and>
        isSampleRateSupported B c sr \<and>
        isFormatSupported B c (getCodecSampleFormat B bc) \<and>
        avcodec_alloc_context3 B c = Some ctx0 \<and>
        \<not> fst (avcodec_open2 B
                 (configureContext B (getCodecSampleFormat B bc) sr br ctx0) c) <s 0 \<and>
        av_packet_alloc B = Some pkt \<and>
        av_frame_alloc B = Some f0 \<and>
        \<not> fst (av_frame_get_buffer B
               (configureFrame
                  (defaultFrameSize B
                     (snd (avcodec_open2 B
                        (configureContext B (getCodecSampleFormat B bc) sr br ctx0) c)))
                  f0)) <s 0)"
  by (auto simp add: initialize_def Let_def openContext_succeeds split: option.splits)

lemma allocateFrame_True:
  assumes "allocateFrame B s ctx = (True, s')"
  shows "initialized s' \<and> context' s' = context' s \<and> packet s' = packet s \<and>
         (\<exists>f. frame s' = Some f \<and> nb_samples f = frame_size ctx \<and>
              frame_channels f = channels ctx \<and> format f = sample_fmt ctx)"
  using assms
  by (auto simp add: allocateFrame_def configureFrame_def deinitialize_eq Let_def
      split: option.splits prod.splits if_splits)

lemma openContext_True:
  assumes "openContext B s c sr br = (True, s')"
  shows "\<exists>ctx0. avcodec_alloc_context3 B c = Some ctx0 \<and>
           context' s' = Some (defaultFrameSize B
             (snd (avcodec_open2 B (configureContext B (sampleFormat s) sr br ctx0) c))) \<and>
           ready s'"
  using assms
  by (auto simp add: openContext_def deinitialize_eq Let_def ready_def
      split: option.splits prod.splits if_splits dest!: allocateFrame_True)

lemma initialize_True:
  assumes "initialize B s0 bc sr br = (True, s)"
  shows "\<exists>c ctx0. avcodec_find_encoder B (getCodecId B bc) = Some c \<and>
           avcodec_alloc_context3 B c = Some ctx0 \<and>
           context' s = Some (defaultFrameSize B
             (snd (avcodec_open2 B
                (configureContext B (getCodecSampleFormat B bc) sr br ctx0) c))) \<and>
           ready s"
  using assms
  by (auto simp add: initialize_def deinitialize_eq Let_def
      split: option.splits if_splits dest!: openContext_True)

lemma initialize_exampleEncoder:
  "initialize (exampleBackend fmt fs) uninitializedEncoder (BochanCodec_Other 0) 48000 64000 =
     (True, exampleEncoder fmt (if fs = 0 then 1024 else fs))"
  by (simp add: initialize_def openContext_def allocateFrame_def configureContext_def
      configureFrame_def
      defaultFrameSize_def exampleBackend_def exampleEncoder_def uninitializedEncoder_def
      AV_CODEC_ID_NONE_def Let_def)

lemma ready_exampleEncoder: "ready (exampleEncoder fmt fs)"
  by (simp add: ready_def exampleEncoder_def)

lemma ready_frame:
  assumes "ready s" and "context' s = Some ctx"
  obtains f where "frame s = Some f" and "nb_samples f = frame_size ctx"
    and "frame_channels f = channels ctx" and "format f = sample_fmt ctx"
    and "initialized s"
  using assms by (auto simp add: ready_def split: option.splits)

text \<open>
  C7. Whenever \<open>initialize\<close> returns false, the encoder it leaves is the uninitialized one:
  not initialized, codec \<^verbatim>\<open>None\<close>, sample rate 0, bit rate 0, bytes per sample 0, and no
  context, packet or frame. And it returns false exactly on the failures the code checks
  for: an unknown codec id, a missing encoder, an unsupported sample rate or sample format,
  a failed allocation of the context, the packet or the frame, a codec that fails to open
  the configured context, and a failed allocation of the buffer of the configured frame
  (lines 78 to 88).
\<close>

theorem initialize_failure_resets:
  "(\<not> fst (initialize B s0 bc sr br) \<longrightarrow>
      snd (initialize B s0 bc sr br) = uninitializedEncoder \<and>
      \<not> isInitialized (snd (initialize B s0 bc sr br)) \<and>
      getCodec (snd (initialize B s0 bc sr br)) = BochanCodec_None \<and>
      getSampleRate (snd (initialize B s0 bc sr br)) = 0 \<and>
      getBitRate (snd (initialize B s0 bc sr br)) = 0 \<and>
      bytesPerSample (snd (initialize B s0 bc sr br)) = 0) \<and>
   (\<not> fst (initialize B s0 bc sr br) \<longleftrightarrow>
    (getCodecId B bc = AV_CODEC_ID_NONE \<or>
    avcodec_find_encoder B (getCodecId B bc) = None \<or>
    (\<exists>c. avcodec_find_encoder B (getCodecId B bc) = Some c \<and>
       (\<not> isSampleRateSupported B c sr \<or>
        \<not> isFormatSupported B c (getCodecSampleFormat B bc) \<or>
        avcodec_alloc_context3 B c = None \<or>
        (\<exists>ctx0. avcodec_alloc_context3 B c = Some ctx0 \<and>
           (fst (avcodec_open2 B
                   (configureContext B (getCodecSampleFormat B bc) sr br ctx0) c) <s 0 \<or>
            (\<exists>f0. av_frame_alloc B = Some f0 \<and>
               fst (av_frame_get_buffer B
                      (configureFrame
                         (defaultFrameSize B
                            (snd (avcodec_open2 B
                               (configureContext B (getCodecSampleFormat B bc) sr br ctx0) c)))
                         f0)) <s 0))))) \<or>
    av_packet_alloc B = None \<or> av_frame_alloc B = None))"
proof (intro conjI impI)
  assume f: "\<not> fst (initialize B s0 bc sr br)"
  then have e: "snd (initialize B s0 bc sr br) = uninitializedEncoder"
    by (rule initialize_False)
  show "snd (initialize B s0 bc sr br) = uninitializedEncoder"
    by (rule e)
  show "\<not> isInitialized (snd (initialize B s0 bc sr br))"
    by (simp add: e isInitialized_def uninitializedEncoder_def)
  show "getCodec (snd (initialize B s0 bc sr br)) = BochanCodec_None"
    by (simp add: e getCodec_def uninitializedEncoder_def)
  show "getSampleRate (snd (initialize B s0 bc sr br)) = 0"
    by (simp add: e getSampleRate_def uninitializedEncoder_def)
  show "getBitRate (snd (initialize B s0 bc sr br)) = 0"
    by (simp add: e getBitRate_def uninitializedEncoder_def)
  show "bytesPerSample (snd (initialize B s0 bc sr br)) = 0"
    by (simp add: e uninitializedEncoder_def)
next
  show "\<not> fst (initialize B s0 bc sr br) \<longleftrightarrow>
    (getCodecId B bc = AV_CODEC_ID_NONE \<or>
    avcodec_find_encoder B (getCodecId B bc) = None \<or>
    (\<exists>c. avcodec_find_encoder B (getCodecId B bc) = Some c \<and>
       (\<not> isSampleRateSupported B c sr \<or>
        \<not> isFormatSupported B c (getCodecSampleFormat B bc) \<or>
        avcodec_alloc_context3 B c = None \<or>
        (\<exists>ctx0. avcodec_alloc_context3 B c = Some ctx0 \<and>
           (fst (avcodec_open2 B
                   (configureContext B (getCodecSampleFormat B bc) sr br ctx0) c) <s 0 \<or>
            (\<exists>f0. av_frame_alloc B = Some f0 \<and>
               fst (av_frame_get_buffer B
                      (configureFrame
                         (defaultFrameSize B
                            (snd (avcodec_open2 B
                               (configureContext B (getCodecSampleFormat B bc) sr br ctx0) c)))
                         f0)) <s 0))))) \<or>
    av_packet_alloc B = None \<or> av_frame_alloc B = None)"
    unfolding initialize_succeeds by (cases "avcodec_find_encoder B (getCodecId B bc)";
      cases "av_packet_alloc B"; cases "av_frame_alloc B") auto
qed

text \<open>
  Two runs with the example codec: an unknown codec, and a codec whose frame buffer cannot
  be allocated.
\<close>

theorem initialize_failure_resets_witness:
  "initialize (exampleBackend AV_SAMPLE_FMT_S16 960) (exampleEncoder AV_SAMPLE_FMT_S16 960)
     BochanCodec_None 48000 64000 = (False, uninitializedEncoder) \<and>
   initialize ((exampleBackend AV_SAMPLE_FMT_S16 960)
                 \<lparr>av_frame_get_buffer := (\<lambda>f. (- 12, (\<lambda>j k. 0)))\<rparr>)
     (exampleEncoder AV_SAMPLE_FMT_S16 960) (BochanCodec_Other 0) 48000 64000 =
     (False, uninitializedEncoder)"
proof -
  let ?B = "exampleBackend AV_SAMPLE_FMT_S16 960"
  let ?B' = "?B\<lparr>av_frame_get_buffer := (\<lambda>f. (- 12, (\<lambda>j k. 0)))\<rparr>"
  let ?e = "exampleEncoder AV_SAMPLE_FMT_S16 960"
  let ?x = "\<lparr>sample_fmt = AV_SAMPLE_FMT_NONE, bit_rate = 0, sample_rate = 0,
     channel_layout = 0, channels = 0, frame_size = 0, extradata = None,
     priv_data = [] :: byte list list\<rparr>"
  let ?f = "\<lparr>nb_samples = 0, format = AV_SAMPLE_FMT_NONE, frame_channel_layout = 0,
     frame_channels = 0, data = (\<lambda>j k. 0)\<rparr>"
  have "getCodecId ?B BochanCodec_None = AV_CODEC_ID_NONE"
    by (simp add: exampleBackend_def AV_CODEC_ID_NONE_def)
  with initialize_failure_resets [of ?B ?e BochanCodec_None 48000 64000]
  have 1: "\<not> fst (initialize ?B ?e BochanCodec_None 48000 64000) \<and>
      snd (initialize ?B ?e BochanCodec_None 48000 64000) = uninitializedEncoder"
    by blast
  have c: "avcodec_find_encoder ?B' (getCodecId ?B' (BochanCodec_Other 0)) =
      Some (AVCodec ''example'')"
    by (simp add: exampleBackend_def)
  have a: "avcodec_alloc_context3 ?B' (AVCodec ''example'') = Some ?x"
    by (simp add: exampleBackend_def)
  have f: "av_frame_alloc ?B' = Some ?f"
    by (simp add: exampleBackend_def)
  have g: "fst (av_frame_get_buffer ?B'
      (configureFrame
         (defaultFrameSize ?B'
            (snd (avcodec_open2 ?B'
               (configureContext ?B' (getCodecSampleFormat ?B' (BochanCodec_Other 0))
                  48000 64000 ?x) (AVCodec ''example''))))
         ?f)) <s 0"
    by (simp add: word_sless_alt)
  from initialize_failure_resets [of ?B' ?e "BochanCodec_Other 0" 48000 64000] c a f g
  have 2: "\<not> fst (initialize ?B' ?e (BochanCodec_Other 0) 48000 64000) \<and>
      snd (initialize ?B' ?e (BochanCodec_Other 0) 48000 64000) = uninitializedEncoder"
    by blast
  from 1 2 show ?thesis
    by (simp add: prod_eq_iff)
qed

section \<open>Properties of the accessors\<close>

text \<open>
  C9. After a successful \<open>initialize\<close>, \<open>getSamplesPerFrame\<close> returns the frame size that
  the opened codec context reports, or \<^verbatim>\<open>DEFAULT_FRAMESIZE\<close> when the codec reports 0; for
  any initialized encoder it returns the frame size of its context; for an encoder that is
  not initialized it returns 0.
\<close>

theorem getSamplesPerFrame_negotiated:
  "(initialize B s0 bc sr br = (True, s) \<longrightarrow>
      (\<exists>c ctx0 ctx.
         avcodec_find_encoder B (getCodecId B bc) = Some c \<and>
         avcodec_alloc_context3 B c = Some ctx0 \<and>
         ctx = snd (avcodec_open2 B
                 (configureContext B (getCodecSampleFormat B bc) sr br ctx0) c) \<and>
         getSamplesPerFrame s =
           Returned (if frame_size ctx = 0 then DEFAULT_FRAMESIZE B else frame_size ctx))) \<and>
   (ready s1 \<and> context' s1 = Some ctx1 \<longrightarrow> getSamplesPerFrame s1 = Returned (frame_size ctx1)) \<and>
   (\<not> initialized s2 \<longrightarrow> getSamplesPerFrame s2 = Returned 0)"
proof (intro conjI impI)
  assume "initialize B s0 bc sr br = (True, s)"
  from initialize_True [OF this] obtain c ctx0 where
    c: "avcodec_find_encoder B (getCodecId B bc) = Some c"
    and a: "avcodec_alloc_context3 B c = Some ctx0"
    and x: "context' s = Some (defaultFrameSize B
             (snd (avcodec_open2 B
                (configureContext B (getCodecSampleFormat B bc) sr br ctx0) c)))"
    and r: "ready s"
    by blast
  from r have "initialized s" by (simp add: ready_def)
  with x have "getSamplesPerFrame s =
      Returned (if frame_size (snd (avcodec_open2 B
                (configureContext B (getCodecSampleFormat B bc) sr br ctx0) c)) = 0
        then DEFAULT_FRAMESIZE B
        else frame_size (snd (avcodec_open2 B
                (configureContext B (getCodecSampleFormat B bc) sr br ctx0) c)))"
    by (simp add: getSamplesPerFrame_def defaultFrameSize_def)
  with c a show "\<exists>c ctx0 ctx.
         avcodec_find_encoder B (getCodecId B bc) = Some c \<and>
         avcodec_alloc_context3 B c = Some ctx0 \<and>
         ctx = snd (avcodec_open2 B
                 (configureContext B (getCodecSampleFormat B bc) sr br ctx0) c) \<and>
         getSamplesPerFrame s =
           Returned (if frame_size ctx = 0 then DEFAULT_FRAMESIZE B else frame_size ctx)"
    by blast
next
  assume "ready s1 \<and> context' s1 = Some ctx1"
  then show "getSamplesPerFrame s1 = Returned (frame_size ctx1)"
    by (simp add: getSamplesPerFrame_def ready_def)
next
  assume "\<not> initialized s2"
  then show "getSamplesPerFrame s2 = Returned 0"
    by (simp add: getSamplesPerFrame_def)
qed

theorem getSamplesPerFrame_negotiated_witness:
  "initialize (exampleBackend AV_SAMPLE_FMT_S16 0) uninitializedEncoder (BochanCodec_Other 0)
     48000 64000 = (True, exampleEncoder AV_SAMPLE_FMT_S16 1024) \<and>
   getSamplesPerFrame (exampleEncoder AV_SAMPLE_FMT_S16 1024) = Returned 1024 \<and>
   getSamplesPerFrame (exampleEncoder AV_SAMPLE_FMT_S16 960) = Returned 960 \<and>
   getSamplesPerFrame (uninitializedEncoder :: byte list list BochanEncoder) = Returned 0"
proof -
  let ?B = "exampleBackend AV_SAMPLE_FMT_S16 0"
  let ?u = "uninitializedEncoder :: byte list list BochanEncoder"
  let ?e = "exampleEncoder AV_SAMPLE_FMT_S16 960"
  let ?x = "\<lparr>sample_fmt = AV_SAMPLE_FMT_S16, bit_rate = 64000, sample_rate = 48000,
     channel_layout = 3, channels = 2, frame_size = 960, extradata = None,
     priv_data = [] :: byte list list\<rparr>"
  have i: "initialize ?B ?u (BochanCodec_Other 0) 48000 64000 =
      (True, exampleEncoder AV_SAMPLE_FMT_S16 1024)"
    using initialize_exampleEncoder [of AV_SAMPLE_FMT_S16 0] by simp
  have r: "ready ?e \<and> context' ?e = Some ?x"
    by (simp add: ready_exampleEncoder) (simp add: exampleEncoder_def)
  have n: "\<not> initialized ?u"
    by (simp add: uninitializedEncoder_def)
  from getSamplesPerFrame_negotiated [of ?B ?u "BochanCodec_Other 0" 48000 64000
      "exampleEncoder AV_SAMPLE_FMT_S16 1024" ?e ?x ?u] i r n
  have "(\<exists>c ctx0 ctx.
         avcodec_find_encoder ?B (getCodecId ?B (BochanCodec_Other 0)) = Some c \<and>
         avcodec_alloc_context3 ?B c = Some ctx0 \<and>
         ctx = snd (avcodec_open2 ?B
                 (configureContext ?B (getCodecSampleFormat ?B (BochanCodec_Other 0))
                    48000 64000 ctx0) c) \<and>
         getSamplesPerFrame (exampleEncoder AV_SAMPLE_FMT_S16 1024) =
           Returned (if frame_size ctx = 0 then DEFAULT_FRAMESIZE ?B else frame_size ctx))"
    and "getSamplesPerFrame ?e = Returned (frame_size ?x)"
    and "getSamplesPerFrame ?u = Returned 0"
    by blast+
  then show ?thesis
    using i by (auto simp add: exampleBackend_def configureContext_def)
qed

text \<open>
  C4. For an initialized encoder, \<open>getInputBufferByteSize\<close> returns frame size times
  channels times 2 whenever that product is a value of \<^verbatim>\<open>int\<close>; with frame size 960 and 2
  channels it returns 3840. For an encoder that is not initialized it returns 0.
\<close>

theorem getInputBufferByteSize_value:
  "(initialized s \<and> context' s = Some ctx \<and>
    - (2 ^ 31) \<le> sint (frame_size ctx) * sint (channels ctx) * 2 \<and>
    sint (frame_size ctx) * sint (channels ctx) * 2 < 2 ^ 31 \<longrightarrow>
      (\<exists>n. getInputBufferByteSize s = Returned n \<and>
           sint n = sint (frame_size ctx) * sint (channels ctx) * 2)) \<and>
   (initialized s \<and> context' s = Some ctx \<and> frame_size ctx = 960 \<and> channels ctx = 2 \<longrightarrow>
      getInputBufferByteSize s = Returned 3840) \<and>
   (\<not> initialized s' \<longrightarrow> getInputBufferByteSize s' = Returned 0)"
proof (intro conjI impI)
  assume a: "initialized s \<and> context' s = Some ctx \<and>
    - (2 ^ 31) \<le> sint (frame_size ctx) * sint (channels ctx) * 2 \<and>
    sint (frame_size ctx) * sint (channels ctx) * 2 < 2 ^ 31"
  then have "sint (ucast ((scast (frame_size ctx) :: 64 word) * 2 * scast (channels ctx)) :: 32 word)
      = sint (frame_size ctx) * sint (channels ctx) * 2"
    by (intro sint_byteSize) simp_all
  with a show "\<exists>n. getInputBufferByteSize s = Returned n \<and>
           sint n = sint (frame_size ctx) * sint (channels ctx) * 2"
    by (simp add: getInputBufferByteSize_def)
next
  assume "initialized s \<and> context' s = Some ctx \<and> frame_size ctx = 960 \<and> channels ctx = 2"
  then show "getInputBufferByteSize s = Returned 3840"
    by (simp add: getInputBufferByteSize_def)
next
  assume "\<not> initialized s'"
  then show "getInputBufferByteSize s' = Returned 0"
    by (simp add: getInputBufferByteSize_def)
qed

theorem getInputBufferByteSize_value_witness:
  "getInputBufferByteSize (exampleEncoder AV_SAMPLE_FMT_S16 960) = Returned 3840 \<and>
   (\<exists>n. getInputBufferByteSize (exampleEncoder AV_SAMPLE_FMT_S16 960) = Returned n \<and>
        sint n = 3840) \<and>
   getInputBufferByteSize (uninitializedEncoder :: byte list list BochanEncoder) = Returned 0"
proof -
  let ?u = "uninitializedEncoder :: byte list list BochanEncoder"
  let ?e = "exampleEncoder AV_SAMPLE_FMT_S16 960"
  let ?x = "\<lparr>sample_fmt = AV_SAMPLE_FMT_S16, bit_rate = 64000, sample_rate = 48000,
     channel_layout = 3, channels = 2, frame_size = 960, extradata = None,
     priv_data = [] :: byte list list\<rparr>"
  have a: "initialized ?e \<and> context' ?e = Some ?x"
    by (simp add: exampleEncoder_def)
  have b: "frame_size ?x = 960 \<and> channels ?x = 2"
    by simp
  have c: "- (2 ^ 31) \<le> sint (frame_size ?x) * sint (channels ?x) * 2 \<and>
      sint (frame_size ?x) * sint (channels ?x) * 2 < 2 ^ 31"
    by simp
  have s: "sint (frame_size ?x) * sint (channels ?x) * 2 = 3840"
    by simp
  have n: "\<not> initialized ?u"
    by (simp add: uninitializedEncoder_def)
  from getInputBufferByteSize_value [of ?e ?x ?u] a b c n
  have "\<exists>n. getInputBufferByteSize ?e = Returned n \<and>
           sint n = sint (frame_size ?x) * sint (channels ?x) * 2"
    and "getInputBufferByteSize ?e = Returned 3840"
    and "getInputBufferByteSize ?u = Returned 0"
    by blast+
  then show ?thesis
    by (simp only: s)
qed

section \<open>Properties of encode\<close>

lemma encode_without_assertions:
  assumes "frame s = Some f"
  shows "encode False B mem s samples =
     (if av_frame_make_writable B f <s 0 then Some (Returned ([], s))
      else if providedSamples samples \<noteq> expectedSamples f then Some (Returned ([], s))
      else encodeFrame B mem s f samples)"
  using assms by (simp add: encode_def)

lemma convertSamples_S16:
  assumes "format f = AV_SAMPLE_FMT_S16"
  shows "\<exists>f'. convertSamples B mem f samples = Some f' \<and>
           (\<forall>k < unat (usedSize samples). data f' 0 k = mem (address samples + k))"
  using assms by (simp add: convertSamples_def memcpy_def)

text \<open>
  The planar cases: slot \<open>i\<close> of plane \<open>j\<close> receives sample \<open>i * channels + j\<close> of the
  buffer, unchanged for 16-bit integers and converted by \<^verbatim>\<open>int16ToFloat\<close> for floats.
\<close>

lemma cat16: "(word_cat (ucast (drop_bit 8 v) :: byte) (ucast v :: byte) :: 16 word) = (v :: 16 word)"
  by (rule bit_word_eqI) (auto simp add: bit_simps)

lemma load16_store16_same: "load16 (store16 p i v) (2 * i) = v"
  by (simp add: load16_def store16_def cat16)

lemma load16_store16_other: "k \<noteq> i \<Longrightarrow> load16 (store16 p i v) (2 * k) = load16 p (2 * k)"
  by (auto simp add: load16_def store16_def)

lemma load32_store32_same: "load32 (store32 p i v) i = v"
  unfolding load32_def store32_def
  by (rule bit_word_eqI) (auto simp add: bit_simps)

lemma load32_store32_other: "k \<noteq> i \<Longrightarrow> load32 (store32 p i v) k = load32 p k"
  by (auto simp add: load32_def store32_def)


lemma fold_channels:
  "fold (\<lambda>j d. d(j := g j (d j))) [0..<ch] planes j =
     (if j < ch then g j (planes j) else planes j)"
  by (induction ch arbitrary: j) (auto simp add: less_Suc_eq)

lemma fold_samples:
  "fold (\<lambda>i. fold (\<lambda>j d. d(j := g i j (d j))) [0..<ch]) [0..<nb] planes j =
     (if j < ch then fold (\<lambda>i. g i j) [0..<nb] (planes j) else planes j)"
proof (induction nb)
  case 0
  show ?case by simp
next
  case (Suc nb)
  let ?F = "\<lambda>i. fold (\<lambda>j d. d(j := g i j (d j))) [0..<ch]"
  let ?X = "fold ?F [0..<nb] planes"
  have "fold ?F [0..<Suc nb] planes = ?F nb ?X"
    by simp
  then have "fold ?F [0..<Suc nb] planes j = ?F nb ?X j"
    by (rule arg_cong)
  also have "\<dots> = (if j < ch then g nb j (?X j) else ?X j)"
    by (rule fold_channels)
  also have "\<dots> = (if j < ch then fold (\<lambda>i. g i j) [0..<Suc nb] (planes j) else planes j)"
    by (simp add: Suc.IH)
  finally show ?case .
qed

lemma fold_store16:
  "i < nb \<Longrightarrow> load16 (fold (\<lambda>i p. store16 p i (v i)) [0..<nb] p0) (2 * i) = v i"
  by (induction nb) (auto simp add: less_Suc_eq load16_store16_same load16_store16_other)

lemma fold_store32:
  "i < nb \<Longrightarrow> load32 (fold (\<lambda>i p. store32 p i (v i)) [0..<nb] p0) i = v i"
  by (induction nb) (auto simp add: less_Suc_eq load32_store32_same load32_store32_other)

lemma planarS16_sample:
  assumes "i < nb" and "j < ch"
  shows "load16 (planarS16 mem src nb ch planes j) (2 * i) = load16 mem (src + 2 * (i * ch + j))"
proof -
  let ?v = "\<lambda>i j. load16 mem (src + 2 * (i * ch + j))"
  have "planarS16 mem src nb ch planes j =
      (if j < ch then fold (\<lambda>i p. store16 p i (?v i j)) [0..<nb] (planes j) else planes j)"
    unfolding planarS16_def by (rule fold_samples [where g = "\<lambda>i j p. store16 p i (?v i j)"])
  then have "planarS16 mem src nb ch planes j =
      fold (\<lambda>i p. store16 p i (?v i j)) [0..<nb] (planes j)"
    using assms(2) by (simp only: if_True)
  then show ?thesis
    using fold_store16 [OF assms(1), of "\<lambda>i. ?v i j" "planes j"] by (simp only:)
qed

lemma planarFLT_sample:
  assumes "i < nb" and "j < ch"
  shows "load32 (planarFLT toFloat mem src nb ch planes j) i =
         toFloat (load16 mem (src + 2 * (i * ch + j)))"
proof -
  let ?v = "\<lambda>i j. toFloat (load16 mem (src + 2 * (i * ch + j)))"
  have "planarFLT toFloat mem src nb ch planes j =
      (if j < ch then fold (\<lambda>i p. store32 p i (?v i j)) [0..<nb] (planes j) else planes j)"
    unfolding planarFLT_def by (rule fold_samples [where g = "\<lambda>i j p. store32 p i (?v i j)"])
  then have "planarFLT toFloat mem src nb ch planes j =
      fold (\<lambda>i p. store32 p i (?v i j)) [0..<nb] (planes j)"
    using assms(2) by (simp only: if_True)
  then show ?thesis
    using fold_store32 [OF assms(1), of "\<lambda>i. ?v i j" "planes j"] by (simp only:)
qed

lemma convertSamples_FLTP:
  assumes "format f = AV_SAMPLE_FMT_FLTP"
    and "i < nat (sint (nb_samples f))" and "j < nat (sint (frame_channels f))"
  shows "\<exists>f'. convertSamples B mem f samples = Some f' \<and>
           load32 (data f' j) i =
             int16ToFloat B (load16 mem (pointer samples +
               2 * (i * nat (sint (frame_channels f)) + j)))"
  using assms(1) planarFLT_sample [OF assms(2,3)]
  by (simp add: convertSamples_def del: mult_Suc_right)

lemma convertSamples_S16P:
  assumes "format f = AV_SAMPLE_FMT_S16P"
    and "i < nat (sint (nb_samples f))" and "j < nat (sint (frame_channels f))"
  shows "\<exists>f'. convertSamples B mem f samples = Some f' \<and>
           load16 (data f' j) (2 * i) =
             load16 mem (pointer samples + 2 * (i * nat (sint (frame_channels f)) + j))"
  using assms(1) planarS16_sample [OF assms(2,3)]
  by (simp add: convertSamples_def)

text \<open>
  A call of \<open>encode\<close> that returns leaves the encoder initialized, with the frame size and
  the input size it had.
\<close>

lemma receivePackets_context:
  assumes "receivePackets B ctx pkt result = Some y"
  shows "\<exists>p. fst (snd y) = ctx\<lparr>priv_data := p\<rparr>"
  using assms
proof (induction rule: receivePackets.raw_induct [rotated 1, consumes 1, case_names step])
  case (step rp B ctx pkt result y)
  obtain ret pkt1 priv1 where r: "avcodec_receive_packet B ctx pkt = (ret, pkt1, priv1)"
    by (cases "avcodec_receive_packet B ctx pkt") auto
  show ?case
  proof (cases "ret = AVERROR_EAGAIN \<or> ret = AVERROR_EOF \<or> ret <s 0")
    case True
    with step(2) r have "fst (snd y) = ctx\<lparr>priv_data := priv1\<rparr>"
      by (auto split: if_splits)
    then show ?thesis by blast
  next
    case False
    with step(2) r have "rp B (ctx\<lparr>priv_data := priv1\<rparr>) pkt1
        (result @ [packet_data pkt1]) = Some y"
      by (auto split: if_splits)
    from step(1) [OF this] obtain p where "fst (snd y) = ctx\<lparr>priv_data := priv1, priv_data := p\<rparr>"
      by blast
    then show ?thesis by auto
  qed
qed

lemma convertSamples_fields:
  assumes "convertSamples B mem f samples = Some f'"
  shows "nb_samples f' = nb_samples f \<and> frame_channels f' = frame_channels f \<and>
         format f' = format f"
  using assms by (cases "format f") (auto simp add: convertSamples_def Let_def)

lemma encodeFrame_ready:
  assumes "ready s" and "frame s = Some f"
    and "encodeFrame B mem s f samples = Some (Returned (packets, s'))"
  shows "ready s' \<and> getSamplesPerFrame s' = getSamplesPerFrame s \<and>
         getInputBufferByteSize s' = getInputBufferByteSize s"
proof (cases "convertSamples B mem f samples")
  case None
  with assms show ?thesis by (simp add: encodeFrame_def)
next
  case (Some f')
  note cf = convertSamples_fields [OF Some]
  from assms(1) obtain ctx pkt where x: "context' s = Some ctx" and p: "packet s = Some pkt"
    by (auto simp add: ready_def split: option.splits)
  obtain ret priv1 where sf: "avcodec_send_frame B ctx f' = (ret, priv1)"
    by (cases "avcodec_send_frame B ctx f'") auto
  let ?s1 = "s\<lparr>frame := Some f', context' := Some (ctx\<lparr>priv_data := priv1\<rparr>)\<rparr>"
  have r1: "ready ?s1"
    using assms(1,2) x cf by (simp add: ready_def)
  have g1: "getSamplesPerFrame ?s1 = getSamplesPerFrame s"
    "getInputBufferByteSize ?s1 = getInputBufferByteSize s"
    using x by (simp_all add: getSamplesPerFrame_def getInputBufferByteSize_def)
  show ?thesis
  proof (cases "ret <s 0")
    case True
    with assms(3) Some x sf have "s' = ?s1"
      by (simp add: encodeFrame_def)
    with r1 g1 show ?thesis by simp
  next
    case False
    with assms(3) Some x sf p obtain res ctx2 pkt2 where
      rp: "receivePackets B (ctx\<lparr>priv_data := priv1\<rparr>) pkt [] = Some (res, ctx2, pkt2)"
      and s': "s' = ?s1\<lparr>context' := Some ctx2, packet := Some pkt2\<rparr>"
      by (auto simp add: encodeFrame_def)
    from receivePackets_context [OF rp] obtain q where "ctx2 = ctx\<lparr>priv_data := q\<rparr>"
      by auto
    with r1 x s' show ?thesis
      by (simp add: ready_def getSamplesPerFrame_def getInputBufferByteSize_def)
  qed
qed

lemma encode_ready:
  assumes "ready s" and "encode assertions B mem s samples = Some (Returned (packets, s'))"
  shows "ready s' \<and> getSamplesPerFrame s' = getSamplesPerFrame s \<and>
         getInputBufferByteSize s' = getInputBufferByteSize s"
proof -
  from assms(1) obtain f where f: "frame s = Some f"
    by (auto simp add: ready_def split: option.splits)
  from assms(2) f have "s' = s \<or> encodeFrame B mem s f samples = Some (Returned (packets, s'))"
    by (auto simp add: encode_def split: outcome.splits if_splits)
  then show ?thesis
    using encodeFrame_ready [OF assms(1) f] assms(1) by auto
qed

text \<open>
  C10. Take an initialized encoder whose frame size and channel count are not negative and
  whose input size fits \<^verbatim>\<open>int\<close>, a build without assertions and a writable frame. Then
  \<open>encode\<close> returns at the size check with an empty result exactly when half the used size,
  rounded down, differs from frame size times channels, and otherwise goes on to the
  conversion. A buffer whose used size is one byte more than \<open>getInputBufferByteSize\<close>
  differs from that size and still has the accepted sample count.
\<close>

theorem sizeCheck_accepts_one_extra_byte:
  assumes "ready s" and "context' s = Some ctx" and "frame s = Some f"
    and "0 \<le> sint (frame_size ctx)" and "0 \<le> sint (channels ctx)"
    and "sint (frame_size ctx) * sint (channels ctx) * 2 < 2 ^ 31"
  shows "(\<forall>samples. \<not> av_frame_make_writable B f <s 0 \<longrightarrow>
            encode False B mem s samples =
              (if unat (usedSize samples) div 2 \<noteq> nat (sint (frame_size ctx) * sint (channels ctx))
               then Some (Returned ([], s))
               else encodeFrame B mem s f samples)) \<and>
         (\<exists>n. getInputBufferByteSize s = Returned n \<and>
              (\<forall>samples :: ByteBuffer. usedSize samples = scast n + 1 \<longrightarrow>
                 usedSize samples \<noteq> scast n \<and>
                 unat (usedSize samples) div 2 =
                   nat (sint (frame_size ctx) * sint (channels ctx))))"
proof -
  from assms(1,2,3) have f: "nb_samples f = frame_size ctx" "frame_channels f = channels ctx"
    and i: "initialized s"
    by (auto elim!: ready_frame)
  have fit: "0 \<le> sint (nb_samples f)" "0 \<le> sint (frame_channels f)"
    "sint (nb_samples f) * sint (frame_channels f) * 2 < 2 ^ 31"
    using assms(4,5,6) by (simp_all add: f)
  have check: "providedSamples samples \<noteq> expectedSamples f \<longleftrightarrow>
      unat (usedSize samples) div 2 \<noteq> nat (sint (frame_size ctx) * sint (channels ctx))"
    for samples
    using sizeCheck_numeric [OF fit, of samples] by (simp add: f)
  have first: "\<forall>samples. \<not> av_frame_make_writable B f <s 0 \<longrightarrow>
            encode False B mem s samples =
              (if unat (usedSize samples) div 2 \<noteq> nat (sint (frame_size ctx) * sint (channels ctx))
               then Some (Returned ([], s))
               else encodeFrame B mem s f samples)"
    by (simp add: encode_without_assertions [OF assms(3)] check)
  let ?n = "ucast ((scast (frame_size ctx) :: 64 word) * 2 * scast (channels ctx)) :: 32 word"
  let ?P = "nat (sint (frame_size ctx) * sint (channels ctx))"
  have n: "getInputBufferByteSize s = Returned ?n"
    using i assms(2) by (simp add: getInputBufferByteSize_def)
  have u: "unat (scast ?n :: 64 word) = 2 * ?P"
    using assms(4,5,6) by (rule unat_byteSize)
  define k where "k = sint (frame_size ctx) * sint (channels ctx)"
  have "0 \<le> k" and "k * 2 < 2147483648"
    using assms(4,5,6) by (simp_all add: k_def)
  then have "2 * nat k < 2147483648"
    by linarith
  then have P: "2 * ?P < 2 ^ 31"
    by (simp add: k_def)
  have "unat (scast ?n :: 64 word) + unat (1 :: 64 word) < 2 ^ LENGTH(64)"
    using P by (simp add: u)
  then have "unat ((scast ?n :: 64 word) + 1) = unat (scast ?n :: 64 word) + unat (1 :: 64 word)"
    by (simp only: unat_add_lem)
  then have u1: "unat ((scast ?n :: 64 word) + 1) = 2 * ?P + 1"
    by (simp add: u)
  have second: "\<forall>samples :: ByteBuffer. usedSize samples = scast ?n + 1 \<longrightarrow>
                 usedSize samples \<noteq> scast ?n \<and> unat (usedSize samples) div 2 = ?P"
  proof (intro allI impI conjI)
    fix samples :: ByteBuffer
    assume e: "usedSize samples = scast ?n + 1"
    show "usedSize samples \<noteq> scast ?n"
    proof
      assume "usedSize samples = scast ?n"
      then have "unat (usedSize samples) = unat (scast ?n :: 64 word)" by simp
      then show False using u u1 e by simp
    qed
    show "unat (usedSize samples) div 2 = ?P"
      using u1 e by simp
  qed
  from first n second show ?thesis by blast
qed

theorem sizeCheck_accepts_one_extra_byte_witness:
  "getInputBufferByteSize (exampleEncoder AV_SAMPLE_FMT_S16P 1) = Returned 4 \<and>
   usedSize (exampleBuffer 5) = scast (4 :: c_int) + 1 \<and>
   encode False (exampleBackend AV_SAMPLE_FMT_S16P 1) exampleMemory
     (exampleEncoder AV_SAMPLE_FMT_S16P 1) (exampleBuffer 5) =
   encodeFrame (exampleBackend AV_SAMPLE_FMT_S16P 1) exampleMemory
     (exampleEncoder AV_SAMPLE_FMT_S16P 1)
     \<lparr>nb_samples = 1, format = AV_SAMPLE_FMT_S16P, frame_channel_layout = 3,
        frame_channels = 2, data = (\<lambda>j k. 0)\<rparr> (exampleBuffer 5)"
proof -
  let ?B = "exampleBackend AV_SAMPLE_FMT_S16P 1"
  let ?e = "exampleEncoder AV_SAMPLE_FMT_S16P 1"
  let ?x = "\<lparr>sample_fmt = AV_SAMPLE_FMT_S16P, bit_rate = 64000, sample_rate = 48000,
     channel_layout = 3, channels = 2, frame_size = 1, extradata = None,
     priv_data = [] :: byte list list\<rparr>"
  let ?f = "\<lparr>nb_samples = 1, format = AV_SAMPLE_FMT_S16P, frame_channel_layout = 3,
     frame_channels = 2, data = (\<lambda>j k. 0)\<rparr>"
  have r: "ready ?e" by (rule ready_exampleEncoder)
  have x: "context' ?e = Some ?x" by (simp add: exampleEncoder_def)
  have f: "frame ?e = Some ?f" by (simp add: exampleEncoder_def)
  have a: "0 \<le> sint (frame_size ?x)" by simp
  have b: "0 \<le> sint (channels ?x)" by simp
  have c: "sint (frame_size ?x) * sint (channels ?x) * 2 < 2 ^ 31" by simp
  have w: "\<not> av_frame_make_writable ?B ?f <s 0" by (simp add: exampleBackend_def)
  have g: "getInputBufferByteSize ?e = Returned 4"
    by (simp add: getInputBufferByteSize_def exampleEncoder_def)
  have u: "usedSize (exampleBuffer 5) = scast (4 :: c_int) + 1"
    by (simp add: exampleBuffer_def)
  have h: "\<not> unat (usedSize (exampleBuffer 5)) div 2 \<noteq>
      nat (sint (frame_size ?x) * sint (channels ?x))"
    by (simp add: exampleBuffer_def)
  from sizeCheck_accepts_one_extra_byte [OF r x f a b c, of ?B exampleMemory]
  have "\<not> av_frame_make_writable ?B ?f <s 0 \<longrightarrow>
      encode False ?B exampleMemory ?e (exampleBuffer 5) =
        (if unat (usedSize (exampleBuffer 5)) div 2 \<noteq>
              nat (sint (frame_size ?x) * sint (channels ?x))
         then Some (Returned ([], ?e))
         else encodeFrame ?B exampleMemory ?e ?f (exampleBuffer 5))"
    by blast
  with w h have "encode False ?B exampleMemory ?e (exampleBuffer 5) =
      encodeFrame ?B exampleMemory ?e ?f (exampleBuffer 5)"
    by simp
  with g u show ?thesis by simp
qed

text \<open>
  C3, as the code has it. Take an initialized encoder whose frame size and channel count are
  not negative and whose input size fits \<^verbatim>\<open>int\<close>, and a buffer whose sample count, half
  its used size rounded down, differs from frame size times channels. In a build without
  assertions \<open>encode\<close> returns an empty result and leaves the encoder as it was, so still
  initialized and usable; in a build with assertions the \<^verbatim>\<open>assert\<close> of line 154 fails and
  stops the process.
\<close>

theorem encode_rejects_wrong_sample_count:
  assumes "ready s" and "context' s = Some ctx"
    and "0 \<le> sint (frame_size ctx)" and "0 \<le> sint (channels ctx)"
    and "sint (frame_size ctx) * sint (channels ctx) * 2 < 2 ^ 31"
    and "unat (usedSize samples) div 2 \<noteq> nat (sint (frame_size ctx) * sint (channels ctx))"
  shows "encode False B mem s samples = Some (Returned ([], s)) \<and>
         encode True B mem s samples = Some AssertionFailed"
proof -
  from assms(1,2) obtain f where fr: "frame s = Some f"
    and f: "nb_samples f = frame_size ctx" "frame_channels f = channels ctx"
    and i: "initialized s"
    by (rule ready_frame)
  have fit: "0 \<le> sint (nb_samples f)" "0 \<le> sint (frame_channels f)"
    "sint (nb_samples f) * sint (frame_channels f) * 2 < 2 ^ 31"
    using assms(3,4,5) by (simp_all add: f)
  have "providedSamples samples \<noteq> expectedSamples f"
    using sizeCheck_numeric [OF fit, of samples] assms(6) by (simp add: f)
  then have release: "encode False B mem s samples = Some (Returned ([], s))"
    by (simp add: encode_without_assertions [OF fr])
  let ?n = "ucast ((scast (frame_size ctx) :: 64 word) * 2 * scast (channels ctx)) :: 32 word"
  have n: "getInputBufferByteSize s = Returned ?n"
    using i assms(2) by (simp add: getInputBufferByteSize_def)
  have u: "unat (scast ?n :: 64 word) = 2 * nat (sint (frame_size ctx) * sint (channels ctx))"
    using assms(3,4,5) by (rule unat_byteSize)
  have "usedSize samples \<noteq> scast ?n"
  proof
    assume "usedSize samples = scast ?n"
    then have "unat (usedSize samples) = unat (scast ?n :: 64 word)" by simp
    then show False using u assms(6) by simp
  qed
  then have "encode True B mem s samples = Some AssertionFailed"
    by (simp add: encode_def sizeAssertion_def n)
  with release show ?thesis by simp
qed

theorem encode_rejects_wrong_sample_count_witness:
  "encode False (exampleBackend AV_SAMPLE_FMT_S16 960) exampleMemory
     (exampleEncoder AV_SAMPLE_FMT_S16 960) (exampleBuffer 3838) =
     Some (Returned ([], exampleEncoder AV_SAMPLE_FMT_S16 960)) \<and>
   encode True (exampleBackend AV_SAMPLE_FMT_S16 960) exampleMemory
     (exampleEncoder AV_SAMPLE_FMT_S16 960) (exampleBuffer 3838) = Some AssertionFailed"
proof -
  let ?e = "exampleEncoder AV_SAMPLE_FMT_S16 960"
  let ?x = "\<lparr>sample_fmt = AV_SAMPLE_FMT_S16, bit_rate = 64000, sample_rate = 48000,
     channel_layout = 3, channels = 2, frame_size = 960, extradata = None,
     priv_data = [] :: byte list list\<rparr>"
  have r: "ready ?e" by (rule ready_exampleEncoder)
  have x: "context' ?e = Some ?x" by (simp add: exampleEncoder_def)
  have a: "0 \<le> sint (frame_size ?x)" by simp
  have b: "0 \<le> sint (channels ?x)" by simp
  have c: "sint (frame_size ?x) * sint (channels ?x) * 2 < 2 ^ 31" by simp
  have d: "unat (usedSize (exampleBuffer 3838)) div 2 \<noteq>
      nat (sint (frame_size ?x) * sint (channels ?x))"
    by (simp add: exampleBuffer_def)
  show ?thesis
    by (rule encode_rejects_wrong_sample_count [OF r x a b c d])
qed

text \<open>
  C3 as it was written fails on an encoder with a frame of one sample in two channels, whose
  input size is 4 bytes, and a buffer of 5 bytes: with assertions the call stops the
  process, and without them the size check lets the buffer through and the call returns a
  packet.
\<close>

theorem encode_size_mismatch_counterexample:
  "getInputBufferByteSize (exampleEncoder AV_SAMPLE_FMT_S16P 1) = Returned 4 \<and>
   usedSize (exampleBuffer 5) = 5 \<and>
   encode True (exampleBackend AV_SAMPLE_FMT_S16P 1) exampleMemory
     (exampleEncoder AV_SAMPLE_FMT_S16P 1) (exampleBuffer 5) = Some AssertionFailed \<and>
   map_option (map_outcome fst)
     (encode False (exampleBackend AV_SAMPLE_FMT_S16P 1) exampleMemory
        (exampleEncoder AV_SAMPLE_FMT_S16P 1) (exampleBuffer 5)) =
     Some (Returned [[1, 2, 0, 0]])"
proof (intro conjI)
  show "getInputBufferByteSize (exampleEncoder AV_SAMPLE_FMT_S16P 1) = Returned 4"
    by (simp add: getInputBufferByteSize_def exampleEncoder_def)
  show "usedSize (exampleBuffer 5) = 5"
    by (simp add: exampleBuffer_def)
  show "encode True (exampleBackend AV_SAMPLE_FMT_S16P 1) exampleMemory
     (exampleEncoder AV_SAMPLE_FMT_S16P 1) (exampleBuffer 5) = Some AssertionFailed"
    by (simp add: encode_def sizeAssertion_def getInputBufferByteSize_def exampleEncoder_def
        exampleBuffer_def)
  show "map_option (map_outcome fst)
     (encode False (exampleBackend AV_SAMPLE_FMT_S16P 1) exampleMemory
        (exampleEncoder AV_SAMPLE_FMT_S16P 1) (exampleBuffer 5)) =
     Some (Returned [[1, 2, 0, 0]])"
    by code_simp
qed

text \<open>
  C8, as the code has it. Take an initialized encoder whose negotiated sample format is none
  of planar or interleaved 16-bit integer and planar or interleaved float. In a build
  without assertions \<open>encode\<close> returns an empty result and leaves the encoder as it was,
  for every buffer. In a build with assertions it does so for every buffer whose used size
  is \<open>getInputBufferByteSize\<close>; for a buffer of any other used size the \<^verbatim>\<open>assert\<close> of
  line 154 fails and stops the process.
\<close>

theorem encode_unsupported_format:
  assumes "ready s" and "context' s = Some ctx"
    and "sample_fmt ctx \<notin> {AV_SAMPLE_FMT_S16P, AV_SAMPLE_FMT_S16, AV_SAMPLE_FMT_FLTP,
                            AV_SAMPLE_FMT_FLT}"
  shows "encode False B mem s samples = Some (Returned ([], s)) \<and>
         (\<exists>n. getInputBufferByteSize s = Returned n \<and>
              (usedSize samples = scast n \<longrightarrow>
                 encode True B mem s samples = Some (Returned ([], s))) \<and>
              (usedSize samples \<noteq> scast n \<longrightarrow>
                 encode True B mem s samples = Some AssertionFailed))"
proof -
  from assms(1,2) obtain f where fr: "frame s = Some f" and fmt: "format f = sample_fmt ctx"
    and i: "initialized s"
    by (rule ready_frame)
  have "convertSamples B mem f samples = None"
    using assms(3) by (cases "sample_fmt ctx") (simp_all add: convertSamples_def fmt)
  then have e: "encodeFrame B mem s f samples = Some (Returned ([], s))"
    by (simp add: encodeFrame_def)
  have release: "encode False B mem s samples = Some (Returned ([], s))"
    using e by (simp add: encode_without_assertions [OF fr])
  let ?n = "ucast ((scast (frame_size ctx) :: 64 word) * 2 * scast (channels ctx)) :: 32 word"
  have n: "getInputBufferByteSize s = Returned ?n"
    using i assms(2) by (simp add: getInputBufferByteSize_def)
  have pass: "usedSize samples = scast ?n \<longrightarrow>
      encode True B mem s samples = Some (Returned ([], s))"
    using e fr by (simp add: encode_def sizeAssertion_def n)
  have stop: "usedSize samples \<noteq> scast ?n \<longrightarrow>
      encode True B mem s samples = Some AssertionFailed"
    by (simp add: encode_def sizeAssertion_def n)
  from release n pass stop show ?thesis by blast
qed

theorem encode_unsupported_format_witness:
  "encode False (exampleBackend AV_SAMPLE_FMT_S32 960) exampleMemory
     (exampleEncoder AV_SAMPLE_FMT_S32 960) (exampleBuffer 3838) =
     Some (Returned ([], exampleEncoder AV_SAMPLE_FMT_S32 960)) \<and>
   encode True (exampleBackend AV_SAMPLE_FMT_S32 960) exampleMemory
     (exampleEncoder AV_SAMPLE_FMT_S32 960) (exampleBuffer 3840) =
     Some (Returned ([], exampleEncoder AV_SAMPLE_FMT_S32 960))"
proof -
  let ?B = "exampleBackend AV_SAMPLE_FMT_S32 960"
  let ?e = "exampleEncoder AV_SAMPLE_FMT_S32 960"
  let ?x = "\<lparr>sample_fmt = AV_SAMPLE_FMT_S32, bit_rate = 64000, sample_rate = 48000,
     channel_layout = 3, channels = 2, frame_size = 960, extradata = None,
     priv_data = [] :: byte list list\<rparr>"
  have r: "ready ?e" by (rule ready_exampleEncoder)
  have x: "context' ?e = Some ?x" by (simp add: exampleEncoder_def)
  have n: "sample_fmt ?x \<notin> {AV_SAMPLE_FMT_S16P, AV_SAMPLE_FMT_S16, AV_SAMPLE_FMT_FLTP,
      AV_SAMPLE_FMT_FLT}"
    by simp
  have g: "getInputBufferByteSize ?e = Returned 3840"
    by (simp add: getInputBufferByteSize_def exampleEncoder_def)
  have u: "usedSize (exampleBuffer 3840) = scast (3840 :: c_int)"
    by (simp add: exampleBuffer_def)
  from encode_unsupported_format [OF r x n, of ?B exampleMemory "exampleBuffer 3838"]
  have 1: "encode False ?B exampleMemory ?e (exampleBuffer 3838) = Some (Returned ([], ?e))"
    by blast
  from encode_unsupported_format [OF r x n, of ?B exampleMemory "exampleBuffer 3840"] g u
  have 2: "encode True ?B exampleMemory ?e (exampleBuffer 3840) = Some (Returned ([], ?e))"
    by auto
  from 1 2 show ?thesis by simp
qed

text \<open>
  C8 as it was written fails in a build with assertions: the encoder that \<open>initialize\<close>
  produces for the format \<^verbatim>\<open>AV_SAMPLE_FMT_S32\<close>, frame size 960 and two channels has the
  input size 3840, and a call with a buffer of 3838 bytes stops the process at the
  \<^verbatim>\<open>assert\<close> of line 154 instead of returning an empty result.
\<close>

theorem encode_unsupported_format_counterexample:
  "initialize (exampleBackend AV_SAMPLE_FMT_S32 960) uninitializedEncoder (BochanCodec_Other 0)
     48000 64000 = (True, exampleEncoder AV_SAMPLE_FMT_S32 960) \<and>
   sampleFormat (exampleEncoder AV_SAMPLE_FMT_S32 960) = AV_SAMPLE_FMT_S32 \<and>
   getInputBufferByteSize (exampleEncoder AV_SAMPLE_FMT_S32 960) = Returned 3840 \<and>
   usedSize (exampleBuffer 3838) = 3838 \<and>
   encode True (exampleBackend AV_SAMPLE_FMT_S32 960) exampleMemory
     (exampleEncoder AV_SAMPLE_FMT_S32 960) (exampleBuffer 3838) = Some AssertionFailed"
proof (intro conjI)
  show "initialize (exampleBackend AV_SAMPLE_FMT_S32 960) uninitializedEncoder
     (BochanCodec_Other 0) 48000 64000 = (True, exampleEncoder AV_SAMPLE_FMT_S32 960)"
    using initialize_exampleEncoder [of AV_SAMPLE_FMT_S32 960] by simp
  show "sampleFormat (exampleEncoder AV_SAMPLE_FMT_S32 960) = AV_SAMPLE_FMT_S32"
    by (simp add: exampleEncoder_def)
  show "getInputBufferByteSize (exampleEncoder AV_SAMPLE_FMT_S32 960) = Returned 3840"
    by (simp add: getInputBufferByteSize_def exampleEncoder_def)
  show "usedSize (exampleBuffer 3838) = 3838"
    by (simp add: exampleBuffer_def)
  show "encode True (exampleBackend AV_SAMPLE_FMT_S32 960) exampleMemory
     (exampleEncoder AV_SAMPLE_FMT_S32 960) (exampleBuffer 3838) = Some AssertionFailed"
    by (simp add: encode_def sizeAssertion_def getInputBufferByteSize_def exampleEncoder_def
        exampleBuffer_def)
qed

text \<open>
  C5 does not hold of the code. With the negotiated format \<^verbatim>\<open>AV_SAMPLE_FMT_S16\<close>, line 181
  copies from \<^verbatim>\<open>samples\<close>, the address of the buffer object, not from
  \<^verbatim>\<open>samples->getPointer()\<close>. Here the encoder has a frame of one sample in two channels and
  is given a buffer of the right size, 4 bytes, whose sample bytes are 1, 2, 3, 4; the frame
  sent to the codec holds the four bytes found at the address of the buffer object instead,
  which the example codec returns as the packet.
\<close>

theorem encode_S16_copies_buffer_object:
  "map exampleMemory [pointer (exampleBuffer 4) ..< pointer (exampleBuffer 4) + 4] =
     [1, 2, 3, 4] \<and>
   map exampleMemory [address (exampleBuffer 4) ..< address (exampleBuffer 4) + 4] =
     [255, 255, 255, 255] \<and>
   map_option (map_outcome fst)
     (encode True (exampleBackend AV_SAMPLE_FMT_S16 1) exampleMemory
        (exampleEncoder AV_SAMPLE_FMT_S16 1) (exampleBuffer 4)) =
     Some (Returned [[255, 255, 255, 255]]) \<and>
   map_option (map_outcome (\<lambda>r. map (data (the (frame (snd r))) 0) [0..<4]))
     (encode True (exampleBackend AV_SAMPLE_FMT_S16 1) exampleMemory
        (exampleEncoder AV_SAMPLE_FMT_S16 1) (exampleBuffer 4)) =
     Some (Returned [255, 255, 255, 255])"
  by (intro conjI; code_simp)

end
